theory Spec2Isabelle
  imports Main "HOL-Library.Word"
begin

section \<open>Data model of \<^verbatim>\<open>server.go\<close>\<close>

text \<open>
  The structs of \<^verbatim>\<open>server.go\<close> are records with the source's field names.
  \<^verbatim>\<open>int64\<close> is a 64-bit word. Go's \<^verbatim>\<open>int\<close> (slice indices, the vote counter, the row
  limit) is modelled by \<open>int\<close>: every index is below the length of a slice that exists
  in memory, so no index computation wraps; the one place where the width of \<^verbatim>\<open>int\<close>
  matters, the range check of \<^verbatim>\<open>strconv.Atoi\<close>, is written out for 64 bits.
  A \<^verbatim>\<open>nil\<close> slice and an empty slice are both the empty list: the handlers only
  append to slices and range over them.
\<close>

record Person =
  Job :: string
  Role :: "string list"
  Name :: string

record Movie =
  Released :: "64 word"
  Title :: string
  Tagline :: string
  Votes :: "64 word"
  Cast :: "Person list"

datatype MovieResult = MovieResult Movie

record VoteResult =
  Updates :: int

record Node =
  Title :: string
  Label :: string

record Link =
  Source :: int
  Target :: int

record D3Response =
  Nodes :: "Node list"
  Links :: "Link list"

subsection \<open>The driver's values, records and results\<close>

text \<open>
  A column value is Go's \<^verbatim>\<open>any\<close>: \<^verbatim>\<open>nil\<close>, or a value tagged with its dynamic type.
  Only the dynamic types the handlers distinguish are listed.
\<close>

datatype any =
    AnyNil
  | AnyBool bool
  | AnyInt64 "64 word"
  | AnyString string
  | AnySlice "any list"

text \<open>
  \<^verbatim>\<open>neo4j.Record\<close>: the keys with their values, in column order. \<^verbatim>\<open>Record.Get\<close>
  returns the value of the first column with the given key and whether there is one.
\<close>

type_synonym Record = "(string \<times> any) list"

definition Get :: "Record \<Rightarrow> string \<Rightarrow> any \<times> bool" where
  "Get record key =
     (case map_of record key of
        None \<Rightarrow> (AnyNil, False)
      | Some v \<Rightarrow> (v, True))"

text \<open>
  Modelled from the spec: \<^verbatim>\<open>neo4j.GetRecordValue[T]\<close> belongs to the driver, whose
  source is not part of the repository. Spec section 4.1 gives its contract: the value
  of the column when it has the expected type, and the type's zero value when the
  column is absent, null or of another type. It returns the value, whether the column
  was null, and an error; the handlers drop the last two. The type parameter \<^verbatim>\<open>T\<close>
  is the pair of a downcast and a zero value.
\<close>

definition GetRecordValue ::
  "(any \<Rightarrow> 'a option) \<Rightarrow> 'a \<Rightarrow> Record \<Rightarrow> string \<Rightarrow> 'a \<times> bool \<times> string option" where
  "GetRecordValue downcast zero record key =
     (case Get record key of
        (rawValue, found) \<Rightarrow>
          if \<not> found then (zero, False, Some ''record has no such key'')
          else if rawValue = AnyNil then (zero, True, None)
          else (case downcast rawValue of
                  None \<Rightarrow> (zero, False, Some ''unexpected value type'')
                | Some v \<Rightarrow> (v, False, None)))"

fun as_string :: "any \<Rightarrow> string option" where
  "as_string (AnyString s) = Some s"
| "as_string _ = None"

fun as_int64 :: "any \<Rightarrow> 64 word option" where
  "as_int64 (AnyInt64 n) = Some n"
| "as_int64 _ = None"

fun as_slice :: "any \<Rightarrow> any list option" where
  "as_slice (AnySlice xs) = Some xs"
| "as_slice _ = None"

definition GetRecordValue_string :: "Record \<Rightarrow> string \<Rightarrow> string \<times> bool \<times> string option" where
  "GetRecordValue_string = GetRecordValue as_string []"

definition GetRecordValue_int64 :: "Record \<Rightarrow> string \<Rightarrow> 64 word \<times> bool \<times> string option" where
  "GetRecordValue_int64 = GetRecordValue as_int64 0"

definition GetRecordValue_slice :: "Record \<Rightarrow> string \<Rightarrow> any list \<times> bool \<times> string option" where
  "GetRecordValue_slice = GetRecordValue as_slice []"

text \<open>
  \<^verbatim>\<open>neo4j.EagerResult\<close>: the records of a query and, of its summary, the one counter
  a handler reads (\<^verbatim>\<open>Summary.Counters().PropertiesSet()\<close>).
  \<^verbatim>\<open>neo4j.ExecuteQuery\<close> returns a pointer to such a result together with an error;
  the pointer is \<open>None\<close> when it is \<^verbatim>\<open>nil\<close>, the error is \<open>None\<close> when it is \<^verbatim>\<open>nil\<close>.
  When the query fails the driver returns the zero value of the result type, that is
  the \<^verbatim>\<open>nil\<close> pointer, and the error: \<open>(None, Some e)\<close>.
\<close>

record EagerResult =
  Records :: "Record list"
  PropertiesSet :: int

type_synonym QueryResult = "EagerResult option \<times> string option"

subsection \<open>Panics and what a handler leaves behind\<close>

text \<open>
  A handler either panics (the run-time error of a \<^verbatim>\<open>nil\<close> dereference or of a failed
  type assertion \<^verbatim>\<open>x.(string)\<close>), or returns, having written lines to the log and,
  possibly, a response body. The body is the value handed to the JSON encoder.
\<close>

datatype panic = NilPointerDereference | InterfaceConversion

datatype 'a outcome =
    Panicked panic
  | Returned (logged: "string list") (body: "'a option")

text \<open>\<^verbatim>\<open>log.Println(msg, err)\<close>: the operands separated by a space.\<close>

definition Println :: "string \<Rightarrow> string \<Rightarrow> string" where
  "Println msg err = msg @ '' '' @ err"

section \<open>The request parameter \<^verbatim>\<open>limit\<close>\<close>

text \<open>
  \<^verbatim>\<open>strconv.Atoi\<close> of the Go standard library, for a 64-bit \<^verbatim>\<open>int\<close>: an optional sign,
  then at least one decimal digit and nothing else; a value outside the range of
  \<^verbatim>\<open>int\<close> is an error as well. \<open>None\<close> is the error.
\<close>

definition is_digit :: "char \<Rightarrow> bool" where
  "is_digit ch = (48 \<le> (of_char ch :: nat) \<and> (of_char ch :: nat) \<le> 57)"

fun digits_value :: "nat \<Rightarrow> string \<Rightarrow> nat option" where
  "digits_value n [] = Some n"
| "digits_value n (ch # s) =
     (if is_digit ch then digits_value (n * 10 + (of_char ch - 48)) s else None)"

definition Atoi :: "string \<Rightarrow> int option" where
  "Atoi s0 =
     (case s0 of
        [] \<Rightarrow> None
      | c # s \<Rightarrow>
          let neg = (c = CHR ''-'');
              digits = (if c = CHR ''-'' \<or> c = CHR ''+'' then s else s0)
          in if digits = [] then None
             else (case digits_value 0 digits of
                     None \<Rightarrow> None
                   | Some un \<Rightarrow>
                       if neg then (if 2 ^ 63 < un then None else Some (- int un))
                       else (if 2 ^ 63 \<le> un then None else Some (int un))))"

text \<open>
  \<^verbatim>\<open>url.Values\<close> is a Go map from parameter name to the list of its values; indexing
  it with a missing name gives the \<^verbatim>\<open>nil\<close> slice.
\<close>

type_synonym Values = "string \<rightharpoonup> string list"

definition index_Values :: "Values \<Rightarrow> string \<Rightarrow> string list" where
  "index_Values query name = (case query name of None \<Rightarrow> [] | Some vs \<Rightarrow> vs)"

definition parseLimit :: "Values \<Rightarrow> int" where
  "parseLimit query =
     (let limits = index_Values query ''limit'';
          limit = 50
      in if length limits > 0
         then (case Atoi (hd limits) of None \<Rightarrow> 50 | Some n \<Rightarrow> n)
         else limit)"

section \<open>The handlers\<close>

subsection \<open>Search\<close>

definition searchRecord :: "Record \<Rightarrow> MovieResult" where
  "searchRecord record =
     (let released = fst (GetRecordValue_int64 record ''released'');
          title = fst (GetRecordValue_string record ''title'');
          tagline = fst (GetRecordValue_string record ''tagline'');
          votes = fst (GetRecordValue_int64 record ''votes'')
      in MovieResult \<lparr>Released = released, Title = title, Tagline = tagline,
                       Votes = votes, Cast = []\<rparr>)"

definition searchHandlerFunc :: "QueryResult \<Rightarrow> MovieResult list outcome" where
  "searchHandlerFunc qr =
     (case qr of
        (result, err) \<Rightarrow>
          (case err of
             Some e \<Rightarrow> Returned [Println ''error querying search:'' e] None
           | None \<Rightarrow>
               (case result of
                  None \<Rightarrow> Panicked NilPointerDereference
                | Some r \<Rightarrow> Returned [] (Some (map searchRecord (Records r))))))"

subsection \<open>Movie detail\<close>

text \<open>\<^verbatim>\<open>toStringSlice\<close>: the loop appends \<^verbatim>\<open>e.(string)\<close>, which panics on any other type.\<close>

fun toStringSlice_loop :: "string list \<Rightarrow> any list \<Rightarrow> panic + string list" where
  "toStringSlice_loop result [] = Inr result"
| "toStringSlice_loop result (AnyString s # es) = toStringSlice_loop (result @ [s]) es"
| "toStringSlice_loop result (e # es) = Inl InterfaceConversion"

definition toStringSlice :: "any list \<Rightarrow> panic + string list" where
  "toStringSlice es = toStringSlice_loop [] es"

text \<open>The values on which \<^verbatim>\<open>e.(string)\<close> succeeds.\<close>

fun is_string :: "any \<Rightarrow> bool" where
  "is_string (AnyString s) = True"
| "is_string _ = False"

text \<open>The body of the loop over the records: one record, the movie so far.\<close>

definition movieRecord :: "Movie \<Rightarrow> Record \<Rightarrow> panic + Movie" where
  "movieRecord movie record =
     (let title = fst (GetRecordValue_string record ''title'');
          movie = movie\<lparr>Movie.Title := title\<rparr>;
          name = fst (GetRecordValue_string record ''name'');
          job = fst (GetRecordValue_string record ''job'');
          role = fst (Get record ''role'')
      in case role of
           AnySlice xs \<Rightarrow>
             (case toStringSlice xs of
                Inl p \<Rightarrow> Inl p
              | Inr strs \<Rightarrow>
                  Inr (movie\<lparr>Cast := Cast movie @ [\<lparr>Job = job, Role = strs, Name = name\<rparr>]\<rparr>))
         | _ \<Rightarrow> Inr (movie\<lparr>Cast := Cast movie @ [\<lparr>Job = job, Role = [], Name = name\<rparr>]\<rparr>))"

fun movieRecords :: "Movie \<Rightarrow> Record list \<Rightarrow> panic + Movie" where
  "movieRecords movie [] = Inr movie"
| "movieRecords movie (record # records) =
     (case movieRecord movie record of
        Inl p \<Rightarrow> Inl p
      | Inr movie' \<Rightarrow> movieRecords movie' records)"

text \<open>\<^verbatim>\<open>var movie Movie\<close>: every field has its zero value.\<close>

definition zero_Movie :: Movie where
  "zero_Movie = \<lparr>Released = 0, Title = [], Tagline = [], Votes = 0, Cast = []\<rparr>"

text \<open>
  The detail projection: the loop of \<^verbatim>\<open>movieHandlerFunc\<close> over the records, from the
  zero movie.
\<close>

definition detailProjection :: "Record list \<Rightarrow> panic + Movie" where
  "detailProjection records = movieRecords zero_Movie records"

text \<open>
  \<^verbatim>\<open>movieHandlerFunc\<close> reads \<^verbatim>\<open>result.Records\<close> before it looks at the error.
\<close>

definition movieHandlerFunc :: "QueryResult \<Rightarrow> Movie outcome" where
  "movieHandlerFunc qr =
     (case qr of
        (result, err) \<Rightarrow>
          (case result of
             None \<Rightarrow> Panicked NilPointerDereference
           | Some r \<Rightarrow>
               (case detailProjection (Records r) of
                  Inl p \<Rightarrow> Panicked p
                | Inr movie \<Rightarrow>
                    (case err of
                       Some e \<Rightarrow> Returned [Println ''error querying movie:'' e] None
                     | None \<Rightarrow> Returned [] (Some movie)))))"

subsection \<open>Vote\<close>

definition voteProjection :: "EagerResult \<Rightarrow> VoteResult" where
  "voteProjection r = \<lparr>Updates = PropertiesSet r\<rparr>"

definition voteInMovieHandlerFunc :: "QueryResult \<Rightarrow> VoteResult outcome" where
  "voteInMovieHandlerFunc qr =
     (case qr of
        (result, err) \<Rightarrow>
          (case result of
             None \<Rightarrow> Panicked NilPointerDereference
           | Some r \<Rightarrow>
               (let vote = voteProjection r
                in case err of
                     Some e \<Rightarrow> Returned [Println ''error voting for movie:'' e] None
                   | None \<Rightarrow> Returned [] (Some vote))))"

text \<open>
  What \<^verbatim>\<open>json.NewEncoder(w).Encode(vote)\<close> writes for a \<^verbatim>\<open>VoteResult\<close>: the one field,
  a decimal integer, and the encoder's newline.
\<close>

fun itoa_nat :: "nat \<Rightarrow> string" where
  "itoa_nat n =
     (if n < 10 then [''0123456789'' ! n]
      else itoa_nat (n div 10) @ [''0123456789'' ! (n mod 10)])"

definition itoa :: "int \<Rightarrow> string" where
  "itoa i = (if i < 0 then CHR ''-'' # itoa_nat (nat (- i)) else itoa_nat (nat i))"

definition Encode_VoteResult :: "VoteResult \<Rightarrow> string" where
  "Encode_VoteResult vote =
     [CHR ''{'', CHR 0x22] @ ''updates'' @ [CHR 0x22, CHR '':''] @ itoa (Updates vote)
       @ [CHR ''}'', CHR 0x0A]"

subsection \<open>Graph\<close>

text \<open>
  The inner search of \<^verbatim>\<open>graphHandler\<close>: \<^verbatim>\<open>idx\<close> is \<open>-1\<close> unless a node equal to the
  actor and labelled \<^verbatim>\<open>actor\<close> is found, and then the index of the first one.
  \<^verbatim>\<open>actor == node.Title\<close> compares a value of type \<^verbatim>\<open>any\<close> with a string: it holds
  when the value is that string.
\<close>

fun find_node :: "any \<Rightarrow> Node list \<Rightarrow> nat \<Rightarrow> int" where
  "find_node actor [] i = - 1"
| "find_node actor (node # nodes) i =
     (if actor = AnyString (Title node) \<and> Label node = ''actor'' then int i
      else find_node actor nodes (Suc i))"

text \<open>The loop over the actors of one record; \<^verbatim>\<open>actor.(string)\<close> panics on a non-string.\<close>

fun graphActors :: "int \<Rightarrow> D3Response \<Rightarrow> any list \<Rightarrow> panic + D3Response" where
  "graphActors movIdx d3Response [] = Inr d3Response"
| "graphActors movIdx d3Response (actor # actors) =
     (let idx = find_node actor (Nodes d3Response) 0
      in if idx = - 1
         then (case actor of
                 AnyString s \<Rightarrow>
                   (let nodes = Nodes d3Response @ [\<lparr>Title = s, Label = ''actor''\<rparr>];
                        links = Links d3Response
                                  @ [\<lparr>Source = int (length nodes) - 1, Target = movIdx\<rparr>]
                    in graphActors movIdx \<lparr>Nodes = nodes, Links = links\<rparr> actors)
               | _ \<Rightarrow> Inl InterfaceConversion)
         else graphActors movIdx
                (d3Response\<lparr>Links := Links d3Response @ [\<lparr>Source = idx, Target = movIdx\<rparr>]\<rparr>)
                actors)"

text \<open>The loop over the records.\<close>

fun graphRecords :: "D3Response \<Rightarrow> Record list \<Rightarrow> panic + D3Response" where
  "graphRecords d3Response [] = Inr d3Response"
| "graphRecords d3Response (record # records) =
     (let title = fst (GetRecordValue_string record ''movie'');
          actors = fst (GetRecordValue_slice record ''cast'');
          d3 = d3Response\<lparr>Nodes := Nodes d3Response @ [\<lparr>Title = title, Label = ''movie''\<rparr>]\<rparr>;
          movIdx = int (length (Nodes d3)) - 1
      in case graphActors movIdx d3 actors of
           Inl p \<Rightarrow> Inl p
         | Inr d3' \<Rightarrow> graphRecords d3' records)"

text \<open>The graph projection: the loop from the zero \<^verbatim>\<open>D3Response\<close>.\<close>

definition graphProjection :: "Record list \<Rightarrow> panic + D3Response" where
  "graphProjection records = graphRecords \<lparr>Nodes = [], Links = []\<rparr> records"

text \<open>
  \<^verbatim>\<open>graphHandler\<close> after the query: it reads \<^verbatim>\<open>result.Records\<close> before it looks at
  the error.
\<close>

definition graphRespond :: "QueryResult \<Rightarrow> D3Response outcome" where
  "graphRespond qr =
     (case qr of
        (result, err) \<Rightarrow>
          (case result of
             None \<Rightarrow> Panicked NilPointerDereference
           | Some r \<Rightarrow>
               (case graphProjection (Records r) of
                  Inl p \<Rightarrow> Panicked p
                | Inr d3Response \<Rightarrow>
                    (case err of
                       Some e \<Rightarrow> Returned [Println ''error querying graph:'' e] None
                     | None \<Rightarrow> Returned [] (Some d3Response)))))"

text \<open>
  \<^verbatim>\<open>graphHandler\<close>: the query engine is a function of the one parameter the handler
  binds, \<^verbatim>\<open>limit\<close>, which is \<^verbatim>\<open>parseLimit(req)\<close>.
\<close>

definition graphHandler :: "(int \<Rightarrow> QueryResult) \<Rightarrow> Values \<Rightarrow> D3Response outcome" where
  "graphHandler ExecuteQuery query = graphRespond (ExecuteQuery (parseLimit query))"

section \<open>Rows as the queries return them\<close>

text \<open>
  A row of the graph query is a movie title with the names of its actors
  (\<^verbatim>\<open>m.title AS movie, collect(a.name) AS cast\<close>); the record the driver hands to the
  handler has the title as a string and the names as a slice of strings.
\<close>

definition graphRecord_of :: "string \<times> string list \<Rightarrow> Record" where
  "graphRecord_of row =
     [(''movie'', AnyString (fst row)), (''cast'', AnySlice (map AnyString (snd row)))]"

text \<open>
  A record of any shape, read the way the graph loop reads it: the title that
  \<^verbatim>\<open>GetRecordValue[string]\<close> yields for \<^verbatim>\<open>movie\<close>, and the strings of the slice that
  \<^verbatim>\<open>GetRecordValue[[]any]\<close> yields for \<^verbatim>\<open>cast\<close>. The loop returns on a record exactly when
  that slice holds strings only.
\<close>

fun string_of :: "any \<Rightarrow> string" where
  "string_of (AnyString s) = s"
| "string_of _ = []"

definition graphRow_of :: "Record \<Rightarrow> string \<times> string list" where
  "graphRow_of record =
     (fst (GetRecordValue_string record ''movie''),
      map string_of (fst (GetRecordValue_slice record ''cast'')))"

definition cast_strings :: "Record \<Rightarrow> bool" where
  "cast_strings record = list_all is_string (fst (GetRecordValue_slice record ''cast''))"

text \<open>A link from an actor to a movie: both ends are indices of nodes with these labels.\<close>

definition actor_to_movie :: "Node list \<Rightarrow> Link \<Rightarrow> bool" where
  "actor_to_movie nodes l =
     (0 \<le> Source l \<and> nat (Source l) < length nodes
      \<and> Label (nodes ! nat (Source l)) = ''actor''
      \<and> 0 \<le> Target l \<and> nat (Target l) < length nodes
      \<and> Label (nodes ! nat (Target l)) = ''movie'')"

text \<open>
  A row of the detail query is a title with one person: name, job and roles, each of
  which may be null (\<open>None\<close>), as all three are in the one row of a movie without cast.
\<close>

record DetailRow =
  row_title :: "string option"
  row_name :: "string option"
  row_job :: "string option"
  row_role :: "string list option"

definition nullable :: "('a \<Rightarrow> any) \<Rightarrow> 'a option \<Rightarrow> any" where
  "nullable box v = (case v of None \<Rightarrow> AnyNil | Some x \<Rightarrow> box x)"

definition detailRecord_of :: "DetailRow \<Rightarrow> Record" where
  "detailRecord_of row =
     [(''title'', nullable AnyString (row_title row)),
      (''name'', nullable AnyString (row_name row)),
      (''job'', nullable AnyString (row_job row)),
      (''role'', nullable (\<lambda>strs. AnySlice (map AnyString strs)) (row_role row))]"

text \<open>The person the detail projection makes of a row: a null is the empty value.\<close>

definition or_empty :: "'a list option \<Rightarrow> 'a list" where
  "or_empty v = (case v of None \<Rightarrow> [] | Some x \<Rightarrow> x)"

definition person_of :: "DetailRow \<Rightarrow> Person" where
  "person_of row =
     \<lparr>Job = or_empty (row_job row), Role = or_empty (row_role row),
      Name = or_empty (row_name row)\<rparr>"

section \<open>The graph algorithm of the specification\<close>

text \<open>
  Section 4.5 of the specification, in its own words: the state is the pair of the
  node sequence and the link sequence. The search is for an existing node with label
  \<^verbatim>\<open>actor\<close> and the actor's name as title, over the full current list.
\<close>

definition movie_node :: "string \<Rightarrow> Node" where
  "movie_node movieTitle = \<lparr>Title = movieTitle, Label = ''movie''\<rparr>"

definition actor_node :: "string \<Rightarrow> Node" where
  "actor_node actorName = \<lparr>Title = actorName, Label = ''actor''\<rparr>"

fun spec_search :: "Node list \<Rightarrow> string \<Rightarrow> nat option" where
  "spec_search [] actorName = None"
| "spec_search (n # nodes) actorName =
     (if Label n = ''actor'' \<and> Title n = actorName then Some 0
      else map_option Suc (spec_search nodes actorName))"

definition spec_actor :: "nat \<Rightarrow> Node list \<times> Link list \<Rightarrow> string \<Rightarrow> Node list \<times> Link list" where
  "spec_actor movieIndex st actorName =
     (case st of
        (nodes, links) \<Rightarrow>
          (case spec_search nodes actorName of
             Some i \<Rightarrow> (nodes, links @ [\<lparr>Source = int i, Target = int movieIndex\<rparr>])
           | None \<Rightarrow>
               (nodes @ [actor_node actorName],
                links @ [\<lparr>Source = int (length nodes), Target = int movieIndex\<rparr>])))"

definition spec_row :: "Node list \<times> Link list \<Rightarrow> string \<times> string list \<Rightarrow> Node list \<times> Link list" where
  "spec_row st row =
     (case st of
        (nodes, links) \<Rightarrow>
          foldl (spec_actor (length nodes)) (nodes @ [movie_node (fst row)], links) (snd row))"

definition spec_rows :: "(string \<times> string list) list \<Rightarrow> Node list \<times> Link list" where
  "spec_rows rows = foldl spec_row ([], []) rows"

definition spec_graph :: "(string \<times> string list) list \<Rightarrow> D3Response" where
  "spec_graph rows = \<lparr>Nodes = fst (spec_rows rows), Links = snd (spec_rows rows)\<rparr>"

section \<open>Properties\<close>

subsection \<open>The row limit\<close>

lemma digits_value_non_digit:
  "ch \<in> set s \<Longrightarrow> \<not> is_digit ch \<Longrightarrow> digits_value n s = None"
  by (induction s arbitrary: n) auto

text \<open>A value with a character that is neither a digit nor a sign is not a number.\<close>

lemma Atoi_non_numeric:
  assumes "ch \<in> set s" "\<not> is_digit ch" "ch \<noteq> CHR ''-''" "ch \<noteq> CHR ''+''"
  shows "Atoi s = None"
proof (cases s)
  case Nil
  with assms show ?thesis by simp
next
  case (Cons c t)
  show ?thesis
  proof (cases "c = CHR ''-'' \<or> c = CHR ''+''")
    case True
    with assms Cons have "ch \<in> set t" by auto
    then have "digits_value 0 t = None"
      using assms(2) by (rule digits_value_non_digit)
    with True Cons show ?thesis by (auto simp: Atoi_def)
  next
    case False
    have "digits_value 0 (c # t) = None"
      using assms(1,2) unfolding Cons by (rule digits_value_non_digit)
    with False Cons show ?thesis by (simp add: Atoi_def del: digits_value.simps)
  qed
qed

lemma Atoi_examples:
  "Atoi ''abc'' = None" "Atoi [] = None" "Atoi ''+'' = None" "Atoi ''12x'' = None"
  "Atoi ''25'' = Some 25" "Atoi ''-7'' = Some (- 7)" "Atoi ''+050'' = Some 50"
  "Atoi ''9223372036854775807'' = Some 9223372036854775807"
  "Atoi ''9223372036854775808'' = None"
  "Atoi ''-9223372036854775808'' = Some (- 9223372036854775808)"
  by (simp_all add: Atoi_def is_digit_def)

text \<open>
  C8. The limit that \<^verbatim>\<open>graphHandler\<close> binds in the query is \<^verbatim>\<open>parseLimit\<close> of the request:
  50 when the request has no \<^verbatim>\<open>limit\<close> value, 50 when \<^verbatim>\<open>strconv.Atoi\<close> rejects the first
  value (as it does for every value with a character that is neither a digit nor a
  sign), and the integer \<^verbatim>\<open>strconv.Atoi\<close> returns for the first value otherwise.
\<close>

theorem parseLimit_graph_limit:
  "graphHandler ExecuteQuery query = graphRespond (ExecuteQuery (parseLimit query))
   \<and> (index_Values query ''limit'' = [] \<longrightarrow> parseLimit query = 50)
   \<and> (\<forall>v vs. index_Values query ''limit'' = v # vs \<and> Atoi v = None
          \<longrightarrow> parseLimit query = 50)
   \<and> (\<forall>v vs ch. index_Values query ''limit'' = v # vs
            \<and> ch \<in> set v \<and> \<not> is_digit ch \<and> ch \<noteq> CHR ''-'' \<and> ch \<noteq> CHR ''+''
          \<longrightarrow> parseLimit query = 50)
   \<and> (\<forall>v vs n. index_Values query ''limit'' = v # vs \<and> Atoi v = Some n
          \<longrightarrow> parseLimit query = n)"
  by (auto simp: graphHandler_def parseLimit_def Let_def dest: Atoi_non_numeric)

text \<open>
  The request \<^verbatim>\<open>/graph?limit=abc\<close> against \<^verbatim>\<open>/graph\<close>: the same limit, 50, and so the same
  outcome whatever the engine does; \<^verbatim>\<open>/graph?limit=7&limit=9\<close> asks for 7 rows.
\<close>

theorem parseLimit_graph_limit_witness:
  "parseLimit [''limit'' \<mapsto> [''abc'']] = 50
   \<and> parseLimit Map.empty = 50
   \<and> parseLimit [''limit'' \<mapsto> [''7'', ''9'']] = 7
   \<and> (\<forall>ExecuteQuery.
         graphHandler ExecuteQuery [''limit'' \<mapsto> [''abc'']] = graphRespond (ExecuteQuery 50)
         \<and> graphHandler ExecuteQuery Map.empty = graphRespond (ExecuteQuery 50))"
proof -
  have abc: "index_Values [''limit'' \<mapsto> [''abc'']] ''limit'' = ''abc'' # []"
    and none: "index_Values Map.empty ''limit'' = []"
    and two: "index_Values [''limit'' \<mapsto> [''7'', ''9'']] ''limit'' = ''7'' # [''9'']"
    by (simp_all add: index_Values_def)
  have bad: "CHR ''a'' \<in> set ''abc'' \<and> \<not> is_digit CHR ''a''
             \<and> CHR ''a'' \<noteq> CHR ''-'' \<and> CHR ''a'' \<noteq> CHR ''+''"
    by (simp add: is_digit_def)
  have seven: "Atoi ''7'' = Some 7"
    by (simp add: Atoi_def is_digit_def)
  have 1: "parseLimit [''limit'' \<mapsto> [''abc'']] = 50"
    using parseLimit_graph_limit [of "\<lambda>limit. (None, None)" "[''limit'' \<mapsto> [''abc'']]"] abc bad by blast
  have 2: "parseLimit Map.empty = 50"
    using parseLimit_graph_limit [of "\<lambda>limit. (None, None)" Map.empty] none by blast
  have 3: "parseLimit [''limit'' \<mapsto> [''7'', ''9'']] = 7"
    using parseLimit_graph_limit [of "\<lambda>limit. (None, None)" "[''limit'' \<mapsto> [''7'', ''9'']]"] two seven
    by blast
  have 4: "graphHandler E [''limit'' \<mapsto> [''abc'']] = graphRespond (E 50)
           \<and> graphHandler E Map.empty = graphRespond (E 50)" for E
    using parseLimit_graph_limit [of E "[''limit'' \<mapsto> [''abc'']]"]
      parseLimit_graph_limit [of E Map.empty] 1 2 by simp
  from 1 2 3 4 show ?thesis by blast
qed

subsection \<open>The vote projection\<close>

text \<open>
  C9. When the write succeeds with a summary that reports \<open>n\<close> properties set, the
  vote handler writes a \<^verbatim>\<open>VoteResult\<close> whose \<^verbatim>\<open>updates\<close> is \<open>n\<close> and logs nothing; for
  \<open>n = 0\<close> the body is the JSON text \<^verbatim>\<open>{"updates":0}\<close>, written like any other count.
\<close>

theorem vote_updates:
  "voteProjection \<lparr>Records = rs, PropertiesSet = n\<rparr> = \<lparr>Updates = n\<rparr>
   \<and> voteInMovieHandlerFunc (Some \<lparr>Records = rs, PropertiesSet = n\<rparr>, None)
       = Returned [] (Some \<lparr>Updates = n\<rparr>)
   \<and> voteInMovieHandlerFunc (Some \<lparr>Records = rs, PropertiesSet = 0\<rparr>, None)
       = Returned [] (Some \<lparr>Updates = 0\<rparr>)
   \<and> Encode_VoteResult \<lparr>Updates = 0\<rparr>
       = [CHR ''{'', CHR 0x22] @ ''updates'' @ [CHR 0x22] @ '':0}'' @ [CHR 0x0A]"
  by (simp add: voteInMovieHandlerFunc_def voteProjection_def Encode_VoteResult_def itoa_def)

subsection \<open>The graph projection against the algorithm of the specification\<close>

lemma Get_graphRecord [simp]:
  "fst (GetRecordValue_string (graphRecord_of row) ''movie'') = fst row"
  "fst (GetRecordValue_slice (graphRecord_of row) ''cast'') = map AnyString (snd row)"
  by (simp_all add: GetRecordValue_string_def GetRecordValue_slice_def GetRecordValue_def
      Get_def graphRecord_of_def)

lemma find_node_spec_search:
  "find_node (AnyString a) nodes k =
     (case spec_search nodes a of None \<Rightarrow> - 1 | Some i \<Rightarrow> int (k + i))"
  by (induction nodes arbitrary: k) (auto split: option.splits)

lemma graphActors_spec:
  "graphActors (int m) d3 (map AnyString names) =
     Inr (case foldl (spec_actor m) (Nodes d3, Links d3) names of
            (nodes, links) \<Rightarrow> \<lparr>Nodes = nodes, Links = links\<rparr>)"
proof (induction names arbitrary: d3)
  case Nil
  show ?case by simp
next
  case (Cons a names)
  show ?case
  proof (cases "spec_search (Nodes d3) a")
    case None
    then show ?thesis
      using Cons.IH [of "\<lparr>Nodes = Nodes d3 @ [actor_node a],
                        Links = Links d3 @ [\<lparr>Source = int (length (Nodes d3)), Target = int m\<rparr>]\<rparr>"]
      by (simp add: find_node_spec_search spec_actor_def actor_node_def Let_def)
  next
    case (Some i)
    then show ?thesis
      using Cons.IH [of "d3\<lparr>Links := Links d3 @ [\<lparr>Source = int i, Target = int m\<rparr>]\<rparr>"]
      by (simp add: find_node_spec_search spec_actor_def Let_def)
  qed
qed

lemma graphRecords_spec:
  "graphRecords d3 (map graphRecord_of rows) =
     Inr (case foldl spec_row (Nodes d3, Links d3) rows of
            (nodes, links) \<Rightarrow> \<lparr>Nodes = nodes, Links = links\<rparr>)"
proof (induction rows arbitrary: d3)
  case Nil
  show ?case by simp
next
  case (Cons row rows)
  obtain nodes links where st:
    "foldl (spec_actor (length (Nodes d3))) (Nodes d3 @ [movie_node (fst row)], Links d3) (snd row)
       = (nodes, links)"
    by (cases "foldl (spec_actor (length (Nodes d3))) (Nodes d3 @ [movie_node (fst row)], Links d3) (snd row)")
  have "graphActors (int (length (Nodes d3)))
          (d3\<lparr>Nodes := Nodes d3 @ [\<lparr>Title = fst row, Label = ''movie''\<rparr>]\<rparr>)
          (map AnyString (snd row)) = Inr \<lparr>Nodes = nodes, Links = links\<rparr>"
    using st by (simp add: graphActors_spec movie_node_def)
  then show ?case
    using Cons.IH [of "\<lparr>Nodes = nodes, Links = links\<rparr>"] st
    by (simp add: Let_def spec_row_def)
qed

lemma graphProjection_spec:
  "graphProjection (map graphRecord_of rows) = Inr (spec_graph rows)"
  by (simp add: graphProjection_def graphRecords_spec spec_graph_def spec_rows_def split: prod.splits)

subsection \<open>Records of any shape\<close>

text \<open>
  The graph loop returns only when every \<^verbatim>\<open>cast\<close> slice holds strings, and then it does
  what it does on the rows these records stand for.
\<close>

lemma find_node_non_string: "\<not> is_string actor \<Longrightarrow> find_node actor nodes k = - 1"
  by (induction nodes arbitrary: k) auto

lemma graphActors_returns:
  "graphActors movIdx d3 es = Inr d3' \<Longrightarrow> list_all is_string es"
proof (induction es arbitrary: d3)
  case Nil
  show ?case by simp
next
  case (Cons e es)
  show ?case
  proof (cases "is_string e")
    case True
    with Cons show ?thesis
      by (auto simp: Let_def split: if_splits any.splits)
  next
    case False
    with Cons.prems show ?thesis
      by (cases e) (simp_all add: find_node_non_string)
  qed
qed

lemma map_AnyString_string_of:
  "list_all is_string es \<Longrightarrow> map AnyString (map string_of es) = es"
proof (induction es)
  case Nil
  show ?case by simp
next
  case (Cons e es)
  then show ?case by (cases e) simp_all
qed

lemma graphRecords_returns:
  "graphRecords d3 records = Inr d3' \<Longrightarrow> list_all cast_strings records"
proof (induction records arbitrary: d3)
  case Nil
  show ?case by simp
next
  case (Cons rec records)
  from Cons.prems obtain d where
    d: "graphActors (int (length (Nodes d3 @ [\<lparr>Title = fst (GetRecordValue_string rec ''movie''), Label = ''movie''\<rparr>])) - 1)
          (d3\<lparr>Nodes := Nodes d3 @ [\<lparr>Title = fst (GetRecordValue_string rec ''movie''), Label = ''movie''\<rparr>]\<rparr>)
          (fst (GetRecordValue_slice rec ''cast'')) = Inr d"
    and rest: "graphRecords d records = Inr d3'"
    by (auto simp: Let_def split: sum.splits)
  from graphActors_returns [OF d] have "cast_strings rec"
    by (simp add: cast_strings_def)
  with Cons.IH [OF rest] show ?case by simp
qed

lemma graphRecords_decode:
  "list_all cast_strings records \<Longrightarrow>
   graphRecords d3 (map graphRecord_of (map graphRow_of records)) = graphRecords d3 records"
proof (induction records arbitrary: d3)
  case Nil
  show ?case by simp
next
  case (Cons rec records)
  then have "map AnyString (map string_of (fst (GetRecordValue_slice rec ''cast'')))
               = fst (GetRecordValue_slice rec ''cast'')"
    by (simp add: cast_strings_def map_AnyString_string_of del: map_map)
  with Cons show ?case
    by (simp add: graphRow_of_def Let_def del: map_map split: sum.splits)
qed

lemma graphProjection_decode:
  assumes "graphProjection records = Inr d3"
  shows "graphProjection (map graphRecord_of (map graphRow_of records)) = Inr d3"
proof -
  from assms have "list_all cast_strings records"
    unfolding graphProjection_def by (rule graphRecords_returns)
  from graphRecords_decode [OF this] assms show ?thesis
    by (simp add: graphProjection_def)
qed

lemma graphProjection_returns_iff:
  "(\<exists>d3. graphProjection records = Inr d3) \<longleftrightarrow> list_all cast_strings records"
proof
  assume "\<exists>d3. graphProjection records = Inr d3"
  then show "list_all cast_strings records"
    unfolding graphProjection_def by (auto dest: graphRecords_returns)
next
  assume ok: "list_all cast_strings records"
  have "graphProjection (map graphRecord_of (map graphRow_of records))
          = Inr (spec_graph (map graphRow_of records))"
    by (rule graphProjection_spec)
  with graphRecords_decode [OF ok] show "\<exists>d3. graphProjection records = Inr d3"
    by (simp add: graphProjection_def)
qed

text \<open>
  C1. On every sequence of graph rows (a movie title with its actor names) the loop of
  \<^verbatim>\<open>graphHandler\<close> returns, and returns exactly the nodes and links of the
  specification's algorithm; the handler writes them when the query succeeded. The two
  rows of Top Gun and Days of Thunder give three nodes and two links from node 1.
  On records of any shape, whatever the loop returns is what the algorithm builds from
  the titles and names the loop reads in them.
\<close>

theorem graphProjection_is_spec_graph:
  "graphProjection (map graphRecord_of rows) = Inr (spec_graph rows)
   \<and> graphRespond (Some \<lparr>Records = map graphRecord_of rows, PropertiesSet = n\<rparr>, None)
       = Returned [] (Some (spec_graph rows))
   \<and> graphProjection (map graphRecord_of
         [(''Top Gun'', [''Tom Cruise'']), (''Days of Thunder'', [''Tom Cruise''])])
       = Inr \<lparr>Nodes = [\<lparr>Title = ''Top Gun'', Label = ''movie''\<rparr>,
                       \<lparr>Title = ''Tom Cruise'', Label = ''actor''\<rparr>,
                       \<lparr>Title = ''Days of Thunder'', Label = ''movie''\<rparr>],
              Links = [\<lparr>Source = 1, Target = 0\<rparr>, \<lparr>Source = 1, Target = 2\<rparr>]\<rparr>
   \<and> (\<forall>records d3. graphProjection records = Inr d3
          \<longrightarrow> d3 = spec_graph (map graphRow_of records))"
proof -
  have example: "graphProjection (map graphRecord_of
          [(''Top Gun'', [''Tom Cruise'']), (''Days of Thunder'', [''Tom Cruise''])])
        = Inr \<lparr>Nodes = [\<lparr>Title = ''Top Gun'', Label = ''movie''\<rparr>,
                        \<lparr>Title = ''Tom Cruise'', Label = ''actor''\<rparr>,
                        \<lparr>Title = ''Days of Thunder'', Label = ''movie''\<rparr>],
               Links = [\<lparr>Source = 1, Target = 0\<rparr>, \<lparr>Source = 1, Target = 2\<rparr>]\<rparr>"
    by (simp add: graphProjection_def graphRecord_of_def GetRecordValue_string_def
        GetRecordValue_slice_def GetRecordValue_def Get_def Let_def)
  have untyped: "d3 = spec_graph (map graphRow_of records)"
    if "graphProjection records = Inr d3" for records d3
    using graphProjection_decode [OF that] by (simp only: graphProjection_spec sum.inject)
  have typed: "graphProjection (map graphRecord_of rows) = Inr (spec_graph rows)"
    by (rule graphProjection_spec)
  then have "graphRespond (Some \<lparr>Records = map graphRecord_of rows, PropertiesSet = n\<rparr>, None)
               = Returned [] (Some (spec_graph rows))"
    by (simp add: graphRespond_def)
  with typed example untyped show ?thesis
    by blast
qed

text \<open>
  The records of the two rows, as the driver hands them over, with a third record that
  lacks both columns: the loop returns the nodes and links of the three rows.
\<close>

theorem graphProjection_is_spec_graph_witness:
  "graphProjection
     [[(''movie'', AnyString ''Top Gun''), (''cast'', AnySlice [AnyString ''Tom Cruise''])],
      [(''movie'', AnyString ''Days of Thunder''), (''cast'', AnySlice [AnyString ''Tom Cruise''])],
      []]
     = Inr \<lparr>Nodes = [\<lparr>Title = ''Top Gun'', Label = ''movie''\<rparr>,
                     \<lparr>Title = ''Tom Cruise'', Label = ''actor''\<rparr>,
                     \<lparr>Title = ''Days of Thunder'', Label = ''movie''\<rparr>,
                     \<lparr>Title = [], Label = ''movie''\<rparr>],
            Links = [\<lparr>Source = 1, Target = 0\<rparr>, \<lparr>Source = 1, Target = 2\<rparr>]\<rparr>
   \<and> spec_graph [(''Top Gun'', [''Tom Cruise'']), (''Days of Thunder'', [''Tom Cruise'']), ([], [])]
     = \<lparr>Nodes = [\<lparr>Title = ''Top Gun'', Label = ''movie''\<rparr>,
                 \<lparr>Title = ''Tom Cruise'', Label = ''actor''\<rparr>,
                 \<lparr>Title = ''Days of Thunder'', Label = ''movie''\<rparr>,
                 \<lparr>Title = [], Label = ''movie''\<rparr>],
        Links = [\<lparr>Source = 1, Target = 0\<rparr>, \<lparr>Source = 1, Target = 2\<rparr>]\<rparr>"
proof -
  let ?records =
    "[[(''movie'', AnyString ''Top Gun''), (''cast'', AnySlice [AnyString ''Tom Cruise''])],
      [(''movie'', AnyString ''Days of Thunder''), (''cast'', AnySlice [AnyString ''Tom Cruise''])],
      []]"
  let ?d = "\<lparr>Nodes = [\<lparr>Title = ''Top Gun'', Label = ''movie''\<rparr>,
                     \<lparr>Title = ''Tom Cruise'', Label = ''actor''\<rparr>,
                     \<lparr>Title = ''Days of Thunder'', Label = ''movie''\<rparr>,
                     \<lparr>Title = [], Label = ''movie''\<rparr>],
            Links = [\<lparr>Source = 1, Target = 0\<rparr>, \<lparr>Source = 1, Target = 2\<rparr>]\<rparr>"
  have ev: "graphProjection ?records = Inr ?d"
    by (simp add: graphProjection_def GetRecordValue_string_def
        GetRecordValue_slice_def GetRecordValue_def Get_def Let_def)
  have rows: "map graphRow_of ?records
                = [(''Top Gun'', [''Tom Cruise'']), (''Days of Thunder'', [''Tom Cruise'']), ([], [])]"
    by (simp add: graphRow_of_def GetRecordValue_string_def
        GetRecordValue_slice_def GetRecordValue_def Get_def)
  from graphProjection_is_spec_graph [of "[]" 0] ev
  have "?d = spec_graph (map graphRow_of ?records)"
    by blast
  with ev rows show ?thesis by simp
qed

subsection \<open>What the algorithm builds\<close>

lemma spec_search_Some:
  "spec_search nodes a = Some i \<Longrightarrow> i < length nodes \<and> nodes ! i = actor_node a"
  by (induction nodes arbitrary: i) (auto simp: actor_node_def split: if_splits)

lemma spec_search_None_iff:
  "spec_search nodes a = None \<longleftrightarrow> actor_node a \<notin> set nodes"
  by (induction nodes) (auto simp: actor_node_def)

lemma spec_search_append:
  "spec_search nodes a = Some i \<Longrightarrow> spec_search (nodes @ extra) a = Some i"
  by (induction nodes arbitrary: i) (auto split: if_splits)

lemma spec_search_append_new:
  "spec_search nodes a = None \<Longrightarrow> spec_search (nodes @ [actor_node a]) a = Some (length nodes)"
  by (induction nodes) (auto simp: actor_node_def)

lemma find_node_append:
  "find_node (AnyString a) nodes 0 \<noteq> - 1 \<Longrightarrow>
   find_node (AnyString a) (nodes @ extra) 0 = find_node (AnyString a) nodes 0"
  by (auto simp: find_node_spec_search spec_search_append split: option.splits)

text \<open>One actor: the node list grows by at most the actor's node, the link list by one link.\<close>

lemma spec_actor_step:
  "spec_actor m (nodes, links) a =
     ((if actor_node a \<in> set nodes then nodes else nodes @ [actor_node a]),
      links @ [\<lparr>Source = find_node (AnyString a)
                 (if actor_node a \<in> set nodes then nodes else nodes @ [actor_node a]) 0,
               Target = int m\<rparr>])"
proof (cases "spec_search nodes a")
  case None
  then show ?thesis
    by (simp add: spec_actor_def find_node_spec_search spec_search_append_new
        spec_search_None_iff [symmetric])
next
  case (Some i)
  then have "actor_node a \<in> set nodes"
    using spec_search_None_iff [of nodes a] by simp
  with Some show ?thesis
    by (simp add: spec_actor_def find_node_spec_search)
qed

lemma find_node_found:
  "actor_node a \<in> set nodes \<Longrightarrow> find_node (AnyString a) nodes 0 \<noteq> - 1"
  using spec_search_None_iff [of nodes a]
  by (auto simp: find_node_spec_search split: option.splits)

lemma find_node_nth:
  assumes "actor_node a \<in> set nodes"
  shows "0 \<le> find_node (AnyString a) nodes 0
         \<and> nat (find_node (AnyString a) nodes 0) < length nodes
         \<and> nodes ! nat (find_node (AnyString a) nodes 0) = actor_node a"
proof -
  from assms obtain i where "spec_search nodes a = Some i"
    using spec_search_None_iff [of nodes a] by auto
  then show ?thesis
    using spec_search_Some [of nodes a i] by (simp add: find_node_spec_search)
qed

text \<open>The actors of one row.\<close>

lemma spec_actors_fold:
  assumes "foldl (spec_actor m) (nodes, links) names = (nodes', links')"
  shows "\<exists>extra. nodes' = nodes @ extra
           \<and> set extra = actor_node ` set names - set nodes
           \<and> distinct extra
           \<and> links' = links @ map (\<lambda>a. \<lparr>Source = find_node (AnyString a) nodes' 0,
                                           Target = int m\<rparr>) names"
  using assms
proof (induction names arbitrary: nodes links)
  case Nil
  then show ?case by simp
next
  case (Cons a names)
  define nodes1 where "nodes1 = (if actor_node a \<in> set nodes then nodes else nodes @ [actor_node a])"
  define l where "l = \<lparr>Source = find_node (AnyString a) nodes1 0, Target = int m\<rparr>"
  have step: "spec_actor m (nodes, links) a = (nodes1, links @ [l])"
    by (simp add: spec_actor_step nodes1_def l_def)
  have in1: "actor_node a \<in> set nodes1"
    by (simp add: nodes1_def)
  from Cons.prems step have "foldl (spec_actor m) (nodes1, links @ [l]) names = (nodes', links')"
    by simp
  from Cons.IH [OF this] obtain extra where extra:
    "nodes' = nodes1 @ extra" "set extra = actor_node ` set names - set nodes1" "distinct extra"
    "links' = (links @ [l]) @ map (\<lambda>a. \<lparr>Source = find_node (AnyString a) nodes' 0,
                                           Target = int m\<rparr>) names"
    by blast
  have src: "find_node (AnyString a) nodes' 0 = find_node (AnyString a) nodes1 0"
    unfolding extra(1) using in1 by (intro find_node_append find_node_found)
  show ?case
  proof (cases "actor_node a \<in> set nodes")
    case True
    then have "nodes1 = nodes" by (simp add: nodes1_def)
    with extra src True show ?thesis
      by (intro exI [of _ extra]) (auto simp: l_def)
  next
    case False
    then have n1: "nodes1 = nodes @ [actor_node a]" by (simp add: nodes1_def)
    have "actor_node a \<notin> set extra" using extra(2) in1 by auto
    with extra src False n1 show ?thesis
      by (intro exI [of _ "actor_node a # extra"]) (auto simp: l_def)
  qed
qed

lemma spec_rows_snoc: "spec_rows (rows @ [row]) = spec_row (spec_rows rows) row"
  by (simp add: spec_rows_def)

lemma node_labels [simp]:
  "Label (movie_node t) = ''movie''" "Label (actor_node a) = ''actor''"
  "Title (movie_node t) = t" "Title (actor_node a) = a"
  "movie_node t \<noteq> actor_node a" "actor_node a \<noteq> movie_node t"
  "(actor_node a = actor_node b) = (a = b)"
  by (auto simp: movie_node_def actor_node_def)

text \<open>One row: one movie node, the nodes of the actors not seen before, one link per name.\<close>

lemma spec_row_step:
  assumes "spec_row (nodes, links) row = (nodes', links')"
  shows "\<exists>extra. nodes' = nodes @ movie_node (fst row) # extra
           \<and> set extra = actor_node ` set (snd row) - set nodes
           \<and> distinct extra
           \<and> links' = links @ map (\<lambda>a. \<lparr>Source = find_node (AnyString a) nodes' 0,
                                           Target = int (length nodes)\<rparr>) (snd row)"
proof -
  from assms have "foldl (spec_actor (length nodes)) (nodes @ [movie_node (fst row)], links) (snd row)
                     = (nodes', links')"
    by (simp add: spec_row_def)
  from spec_actors_fold [OF this] obtain extra where
    "nodes' = (nodes @ [movie_node (fst row)]) @ extra"
    "set extra = actor_node ` set (snd row) - set (nodes @ [movie_node (fst row)])"
    "distinct extra"
    "links' = links @ map (\<lambda>a. \<lparr>Source = find_node (AnyString a) nodes' 0,
                                    Target = int (length nodes)\<rparr>) (snd row)"
    by blast
  moreover have "actor_node ` set (snd row) - set (nodes @ [movie_node (fst row)])
                  = actor_node ` set (snd row) - set nodes"
    by auto
  ultimately show ?thesis by (intro exI [of _ extra]) simp
qed

text \<open>The state after all rows.\<close>

lemma spec_rows_movies:
  "map Title (filter (\<lambda>n. Label n = ''movie'') (fst (spec_rows rows))) = map fst rows"
proof (induction rows rule: rev_induct)
  case Nil
  show ?case by (simp add: spec_rows_def)
next
  case (snoc row rows)
  obtain nodes links where st: "spec_rows rows = (nodes, links)" by (cases "spec_rows rows")
  obtain nodes' links' where st': "spec_row (nodes, links) row = (nodes', links')"
    by (cases "spec_row (nodes, links) row")
  from spec_row_step [OF st'] obtain extra where
    e: "nodes' = nodes @ movie_node (fst row) # extra" "set extra = actor_node ` set (snd row) - set nodes"
    by blast
  from e(2) have "filter (\<lambda>n. Label n = ''movie'') extra = []"
    by (auto simp: filter_empty_conv)
  with snoc st st' e(1) show ?case
    by (simp add: spec_rows_snoc)
qed

lemma spec_rows_actors:
  "distinct (filter (\<lambda>n. Label n = ''actor'') (fst (spec_rows rows)))
   \<and> set (filter (\<lambda>n. Label n = ''actor'') (fst (spec_rows rows)))
       = actor_node ` set (concat (map snd rows))"
proof (induction rows rule: rev_induct)
  case Nil
  show ?case by (simp add: spec_rows_def)
next
  case (snoc row rows)
  obtain nodes links where st: "spec_rows rows = (nodes, links)" by (cases "spec_rows rows")
  obtain nodes' links' where st': "spec_row (nodes, links) row = (nodes', links')"
    by (cases "spec_row (nodes, links) row")
  from spec_row_step [OF st'] obtain extra where
    e: "nodes' = nodes @ movie_node (fst row) # extra" "set extra = actor_node ` set (snd row) - set nodes"
       "distinct extra"
    by blast
  from e(2) have f: "filter (\<lambda>n. Label n = ''actor'') extra = extra"
    by (auto simp: filter_id_conv)
  from snoc st have ih: "distinct (filter (\<lambda>n. Label n = ''actor'') nodes)"
    "set (filter (\<lambda>n. Label n = ''actor'') nodes) = actor_node ` set (concat (map snd rows))"
    by simp_all
  have "filter (\<lambda>n. Label n = ''actor'') nodes' = filter (\<lambda>n. Label n = ''actor'') nodes @ extra"
    using e(1) f by simp
  moreover have "distinct (filter (\<lambda>n. Label n = ''actor'') nodes @ extra)"
    using ih(1) e(2,3) by auto
  moreover have "set (filter (\<lambda>n. Label n = ''actor'') nodes @ extra)
                  = actor_node ` set (concat (map snd (rows @ [row])))"
  proof -
    have "actor_node a \<in> set (filter (\<lambda>n. Label n = ''actor'') nodes) \<union> set extra"
      if "a \<in> set (snd row)" for a
      using that e(2) by (cases "actor_node a \<in> set nodes") auto
    then have "actor_node ` set (snd row) \<subseteq> set (filter (\<lambda>n. Label n = ''actor'') nodes) \<union> set extra"
      by blast
    moreover have "set extra \<subseteq> actor_node ` set (snd row)"
      using e(2) by blast
    ultimately have "set (filter (\<lambda>n. Label n = ''actor'') nodes) \<union> set extra
                      = actor_node ` set (concat (map snd rows)) \<union> actor_node ` set (snd row)"
      using ih(2) by blast
    then show ?thesis
      by (simp add: image_Un)
  qed
  ultimately show ?case
    using st st' by (simp add: spec_rows_snoc)
qed

lemma spec_rows_actor_mem:
  "a \<in> set (concat (map snd rows)) \<Longrightarrow> actor_node a \<in> set (fst (spec_rows rows))"
proof -
  assume "a \<in> set (concat (map snd rows))"
  then have "actor_node a \<in> actor_node ` set (concat (map snd rows))"
    by (rule imageI)
  then have "actor_node a \<in> set (filter (\<lambda>n. Label n = ''actor'') (fst (spec_rows rows)))"
    using spec_rows_actors [of rows] by simp
  then show ?thesis by simp
qed

lemma spec_rows_sources:
  "map Source (snd (spec_rows rows))
     = map (\<lambda>a. find_node (AnyString a) (fst (spec_rows rows)) 0) (concat (map snd rows))"
proof (induction rows rule: rev_induct)
  case Nil
  show ?case by (simp add: spec_rows_def)
next
  case (snoc row rows)
  obtain nodes links where st: "spec_rows rows = (nodes, links)" by (cases "spec_rows rows")
  obtain nodes' links' where st': "spec_row (nodes, links) row = (nodes', links')"
    by (cases "spec_row (nodes, links) row")
  from spec_row_step [OF st'] obtain extra where
    e: "nodes' = nodes @ movie_node (fst row) # extra"
       "links' = links @ map (\<lambda>a. \<lparr>Source = find_node (AnyString a) nodes' 0,
                                      Target = int (length nodes)\<rparr>) (snd row)"
    by blast
  have old: "find_node (AnyString a) nodes' 0 = find_node (AnyString a) nodes 0"
    if "a \<in> set (concat (map snd rows))" for a
  proof -
    from that have "actor_node a \<in> set nodes"
      using spec_rows_actor_mem [of a rows] st by simp
    then show ?thesis
      unfolding e(1) by (intro find_node_append find_node_found)
  qed
  have "map Source links' = map Source links @ map (\<lambda>a. find_node (AnyString a) nodes' 0) (snd row)"
    using e(2) by (simp add: comp_def)
  also have "map Source links = map (\<lambda>a. find_node (AnyString a) nodes 0) (concat (map snd rows))"
    using snoc st by simp
  also have "\<dots> = map (\<lambda>a. find_node (AnyString a) nodes' 0) (concat (map snd rows))"
    using old by (intro map_cong) simp_all
  finally show ?case
    using st st' by (simp add: spec_rows_snoc)
qed

lemma spec_rows_targets:
  "\<forall>l \<in> set (snd (spec_rows rows)).
      0 \<le> Target l \<and> nat (Target l) < length (fst (spec_rows rows))
      \<and> Label (fst (spec_rows rows) ! nat (Target l)) = ''movie''"
proof (induction rows rule: rev_induct)
  case Nil
  show ?case by (simp add: spec_rows_def)
next
  case (snoc row rows)
  obtain nodes links where st: "spec_rows rows = (nodes, links)" by (cases "spec_rows rows")
  obtain nodes' links' where st': "spec_row (nodes, links) row = (nodes', links')"
    by (cases "spec_row (nodes, links) row")
  from spec_row_step [OF st'] obtain extra where
    e: "nodes' = nodes @ movie_node (fst row) # extra"
       "links' = links @ map (\<lambda>a. \<lparr>Source = find_node (AnyString a) nodes' 0,
                                      Target = int (length nodes)\<rparr>) (snd row)"
    by blast
  have "0 \<le> Target l \<and> nat (Target l) < length nodes' \<and> Label (nodes' ! nat (Target l)) = ''movie''"
    if "l \<in> set links'" for l
  proof (cases "l \<in> set links")
    case True
    with snoc st have "0 \<le> Target l \<and> nat (Target l) < length nodes
                       \<and> Label (nodes ! nat (Target l)) = ''movie''"
      by simp
    then show ?thesis
      unfolding e(1) by (simp add: nth_append)
  next
    case False
    with that e(2) have "Target l = int (length nodes)" by auto
    then show ?thesis
      unfolding e(1) by simp
  qed
  then show ?case
    using st st' by (simp add: spec_rows_snoc)
qed

text \<open>Further rows, from any state: nodes and links are only appended, and every new
  link points at a node that was not there before.\<close>

lemma spec_rows_fold_grows:
  assumes "foldl spec_row (nodes, links) rows = (nodes', links')"
  shows "\<exists>extra new. nodes' = nodes @ extra \<and> links' = links @ new
           \<and> (\<forall>l \<in> set new. int (length nodes) \<le> Target l)"
  using assms
proof (induction rows arbitrary: nodes links)
  case Nil
  then show ?case by simp
next
  case (Cons row rows)
  obtain nodes1 links1 where st1: "spec_row (nodes, links) row = (nodes1, links1)"
    by (cases "spec_row (nodes, links) row")
  from spec_row_step [OF st1] obtain extra1 where
    e1: "nodes1 = nodes @ movie_node (fst row) # extra1"
        "links1 = links @ map (\<lambda>a. \<lparr>Source = find_node (AnyString a) nodes1 0,
                                       Target = int (length nodes)\<rparr>) (snd row)"
    by blast
  from Cons.prems st1 have "foldl spec_row (nodes1, links1) rows = (nodes', links')"
    by simp
  from Cons.IH [OF this] obtain extra new where
    e: "nodes' = nodes1 @ extra" "links' = links1 @ new"
       "\<forall>l \<in> set new. int (length nodes1) \<le> Target l"
    by blast
  define new1 where "new1 = map (\<lambda>a. \<lparr>Source = find_node (AnyString a) nodes1 0,
                                          Target = int (length nodes)\<rparr>) (snd row)"
  have "nodes' = nodes @ (movie_node (fst row) # extra1 @ extra)"
    using e(1) e1(1) by simp
  moreover have "links' = links @ (new1 @ new)"
    using e(2) e1(2) by (simp add: new1_def)
  moreover have "\<forall>l \<in> set (new1 @ new). int (length nodes) \<le> Target l"
    using e(3) e1(1) by (auto simp: new1_def)
  ultimately show ?case by blast
qed

text \<open>Row \<open>i\<close> in the final state: its movie node stands where the node list ended
  after the rows before it, and its links, one per name, stand between the links of
  the rows before and the links of the rows after.\<close>

lemma spec_rows_at:
  assumes i: "i < length rows"
  shows "\<exists>extra before after.
           fst (spec_rows rows) = fst (spec_rows (take i rows)) @ movie_node (fst (rows ! i)) # extra
         \<and> snd (spec_rows rows) =
              before
              @ map (\<lambda>a. \<lparr>Source = find_node (AnyString a) (fst (spec_rows rows)) 0,
                            Target = int (length (fst (spec_rows (take i rows))))\<rparr>) (snd (rows ! i))
              @ after
         \<and> (\<forall>l \<in> set before. Target l < int (length (fst (spec_rows (take i rows)))))
         \<and> (\<forall>l \<in> set after. int (length (fst (spec_rows (take i rows)))) < Target l)"
proof -
  obtain n0 l0 where st0: "spec_rows (take i rows) = (n0, l0)"
    by (cases "spec_rows (take i rows)")
  obtain n1 l1 where st1: "spec_row (n0, l0) (rows ! i) = (n1, l1)"
    by (cases "spec_row (n0, l0) (rows ! i)")
  obtain n2 l2 where st2: "spec_rows rows = (n2, l2)"
    by (cases "spec_rows rows")
  have "rows = take i rows @ rows ! i # drop (Suc i) rows"
    using i by (simp add: id_take_nth_drop)
  then have "spec_rows rows = foldl spec_row (spec_row (spec_rows (take i rows)) (rows ! i)) (drop (Suc i) rows)"
    unfolding spec_rows_def by (metis foldl_Cons foldl_append)
  with st0 st1 st2 have rest: "foldl spec_row (n1, l1) (drop (Suc i) rows) = (n2, l2)"
    by simp
  from spec_row_step [OF st1] obtain extra1 where
    e1: "n1 = n0 @ movie_node (fst (rows ! i)) # extra1"
        "set extra1 = actor_node ` set (snd (rows ! i)) - set n0"
        "l1 = l0 @ map (\<lambda>a. \<lparr>Source = find_node (AnyString a) n1 0,
                                Target = int (length n0)\<rparr>) (snd (rows ! i))"
    by blast
  from spec_rows_fold_grows [OF rest] obtain extra2 after where
    e2: "n2 = n1 @ extra2" "l2 = l1 @ after" "\<forall>l \<in> set after. int (length n1) \<le> Target l"
    by blast
  have mem: "actor_node a \<in> set n1" if "a \<in> set (snd (rows ! i))" for a
    using that e1(1,2) by (cases "actor_node a \<in> set n0") auto
  have src: "find_node (AnyString a) n2 0 = find_node (AnyString a) n1 0"
    if "a \<in> set (snd (rows ! i))" for a
    unfolding e2(1) using mem [OF that] by (intro find_node_append find_node_found)
  have links: "l2 = l0 @ map (\<lambda>a. \<lparr>Source = find_node (AnyString a) n2 0,
                                       Target = int (length n0)\<rparr>) (snd (rows ! i)) @ after"
    using e1(3) e2(2) src by simp
  have before: "\<forall>l \<in> set l0. Target l < int (length n0)"
    using spec_rows_targets [of "take i rows"] st0 by auto
  have after: "\<forall>l \<in> set after. int (length n0) < Target l"
    using e2(3) e1(1) by auto
  have "n2 = n0 @ movie_node (fst (rows ! i)) # (extra1 @ extra2)"
    using e1(1) e2(1) by simp
  with links before after st0 st2 show ?thesis
    by (intro exI [of _ "extra1 @ extra2"] exI [of _ l0] exI [of _ after]) simp
qed

lemma graphProjection_rows:
  "graphProjection (map graphRecord_of rows)
     = Inr \<lparr>Nodes = fst (spec_rows rows), Links = snd (spec_rows rows)\<rparr>"
  by (simp add: graphProjection_spec spec_graph_def)

lemma row_names_subset:
  "i < length rows \<Longrightarrow> a \<in> set (snd (rows ! i)) \<Longrightarrow> a \<in> set (concat (map snd rows))"
  by (auto intro!: bexI [of _ "rows ! i"])

text \<open>Different names have different nodes.\<close>

lemma actor_index_inj:
  assumes "a \<in> set (concat (map snd rows))" "b \<in> set (concat (map snd rows))"
    and "find_node (AnyString b) (fst (spec_rows rows)) 0
           = find_node (AnyString a) (fst (spec_rows rows)) 0"
  shows "b = a"
proof -
  have "fst (spec_rows rows) ! nat (find_node (AnyString a) (fst (spec_rows rows)) 0) = actor_node a"
    using find_node_nth [OF spec_rows_actor_mem [OF assms(1)]] by simp
  moreover have "fst (spec_rows rows) ! nat (find_node (AnyString b) (fst (spec_rows rows)) 0) = actor_node b"
    using find_node_nth [OF spec_rows_actor_mem [OF assms(2)]] by simp
  ultimately have "actor_node b = actor_node a"
    using assms(3) by simp
  then show ?thesis by simp
qed

lemma one_actor_node:
  assumes "a \<in> set (concat (map snd rows))"
  shows "length (filter (\<lambda>n. n = actor_node a) (fst (spec_rows rows))) = 1"
proof -
  let ?actors = "filter (\<lambda>n. Label n = ''actor'') (fst (spec_rows rows))"
  have "filter (\<lambda>n. n = actor_node a) (fst (spec_rows rows)) = filter (\<lambda>n. n = actor_node a) ?actors"
    by (auto simp: filter_filter intro!: filter_cong)
  moreover have "distinct ?actors" "actor_node a \<in> set ?actors"
    using spec_rows_actors [of rows] assms by auto
  then have "length (filter (\<lambda>n. n = actor_node a) ?actors) = card {actor_node a}"
    by (subst distinct_length_filter) (auto intro!: arg_cong [where f = card])
  ultimately show ?thesis by simp
qed

lemma source_count:
  assumes "a \<in> set (concat (map snd rows))"
  shows "length (filter (\<lambda>l. Source l = find_node (AnyString a) (fst (spec_rows rows)) 0)
                   (snd (spec_rows rows)))
           = count_list (concat (map snd rows)) a"
proof -
  let ?k = "find_node (AnyString a) (fst (spec_rows rows)) 0"
  have "length (filter (\<lambda>l. Source l = ?k) (snd (spec_rows rows)))
          = length (filter (\<lambda>s. s = ?k) (map Source (snd (spec_rows rows))))"
    by (simp add: length_filter_map comp_def)
  also have "\<dots> = length (filter (\<lambda>b. find_node (AnyString b) (fst (spec_rows rows)) 0 = ?k)
                              (concat (map snd rows)))"
    by (simp only: spec_rows_sources length_filter_map comp_def)
  also have "filter (\<lambda>b. find_node (AnyString b) (fst (spec_rows rows)) 0 = ?k) (concat (map snd rows))
               = filter ((=) a) (concat (map snd rows))"
  proof (rule filter_cong [OF refl])
    fix b assume "b \<in> set (concat (map snd rows))"
    from actor_index_inj [OF assms this]
    show "(find_node (AnyString b) (fst (spec_rows rows)) 0 = ?k) = (a = b)" by blast
  qed
  finally show ?thesis
    by (simp add: count_list_eq_length_filter)
qed

lemma row_link_count:
  assumes i: "i < length rows" and a: "a \<in> set (snd (rows ! i))"
  shows "length (filter (\<lambda>l. l = \<lparr>Source = find_node (AnyString a) (fst (spec_rows rows)) 0,
                                  Target = int (length (fst (spec_rows (take i rows))))\<rparr>)
                   (snd (spec_rows rows)))
           = count_list (snd (rows ! i)) a"
proof -
  let ?N = "fst (spec_rows rows)"
  let ?m = "int (length (fst (spec_rows (take i rows))))"
  let ?l = "\<lparr>Source = find_node (AnyString a) ?N 0, Target = ?m\<rparr>"
  from spec_rows_at [OF i] obtain before after where
    links: "snd (spec_rows rows) =
              before @ map (\<lambda>b. \<lparr>Source = find_node (AnyString b) ?N 0, Target = ?m\<rparr>) (snd (rows ! i))
                @ after"
    and before: "\<forall>l \<in> set before. Target l < ?m"
    and after: "\<forall>l \<in> set after. ?m < Target l"
    by blast
  have "filter (\<lambda>l. l = ?l) before = []"
    using before by (auto simp: filter_empty_conv)
  moreover have "filter (\<lambda>l. l = ?l) after = []"
    using after by (auto simp: filter_empty_conv)
  moreover have "filter (\<lambda>b. \<lparr>Source = find_node (AnyString b) ?N 0, Target = ?m\<rparr> = ?l) (snd (rows ! i))
                   = filter ((=) a) (snd (rows ! i))"
  proof (rule filter_cong [OF refl])
    fix b assume "b \<in> set (snd (rows ! i))"
    from actor_index_inj [OF row_names_subset [OF i a] row_names_subset [OF i this]]
    show "(\<lparr>Source = find_node (AnyString b) ?N 0, Target = ?m\<rparr> = ?l) = (a = b)" by auto
  qed
  ultimately show ?thesis
    by (simp add: links length_filter_map comp_def count_list_eq_length_filter)
qed

lemma row_link_mem:
  assumes i: "i < length rows" and a: "a \<in> set (snd (rows ! i))"
  shows "\<lparr>Source = find_node (AnyString a) (fst (spec_rows rows)) 0,
          Target = int (length (fst (spec_rows (take i rows))))\<rparr> \<in> set (snd (spec_rows rows))"
proof -
  from spec_rows_at [OF i] obtain before after where
    "snd (spec_rows rows) =
       before @ map (\<lambda>b. \<lparr>Source = find_node (AnyString b) (fst (spec_rows rows)) 0,
                             Target = int (length (fst (spec_rows (take i rows))))\<rparr>) (snd (rows ! i))
         @ after"
    by blast
  with a show ?thesis by auto
qed

lemma row_movie_node:
  assumes i: "i < length rows"
  shows "length (fst (spec_rows (take i rows))) < length (fst (spec_rows rows))
         \<and> fst (spec_rows rows) ! length (fst (spec_rows (take i rows))) = movie_node (fst (rows ! i))"
proof -
  from spec_rows_at [OF i] obtain extra where
    "fst (spec_rows rows) = fst (spec_rows (take i rows)) @ movie_node (fst (rows ! i)) # extra"
    by blast
  then show ?thesis by (simp add: nth_append)
qed

lemma row_movie_index_mono:
  assumes "i < j" "j \<le> length rows"
  shows "length (fst (spec_rows (take i rows))) < length (fst (spec_rows (take j rows)))"
proof -
  have "i < length (take j rows)" using assms by simp
  from row_movie_node [OF this] have
    "length (fst (spec_rows (take i (take j rows)))) < length (fst (spec_rows (take j rows)))"
    by simp
  moreover have "take i (take j rows) = take i rows"
    using assms by (simp add: min_def)
  ultimately show ?thesis by simp
qed

subsection \<open>Links run from actors to movies\<close>

lemma spec_rows_links:
  "\<forall>l \<in> set (snd (spec_rows rows)). actor_to_movie (fst (spec_rows rows)) l"
proof -
  let ?N = "fst (spec_rows rows)" and ?L = "snd (spec_rows rows)"
  have "0 \<le> Source l \<and> nat (Source l) < length ?N \<and> Label (?N ! nat (Source l)) = ''actor''"
    if "l \<in> set ?L" for l
  proof -
    from that have "Source l \<in> set (map Source ?L)" by simp
    then obtain a where a: "a \<in> set (concat (map snd rows))"
      and s: "Source l = find_node (AnyString a) ?N 0"
      unfolding spec_rows_sources by auto
    from find_node_nth [OF spec_rows_actor_mem [OF a]] s show ?thesis by simp
  qed
  then show ?thesis
    using spec_rows_targets [of rows] by (simp add: actor_to_movie_def)
qed

text \<open>
  C2. On every sequence of graph rows the projection returns a response in which every
  link has a source that is the index of a node labelled \<^verbatim>\<open>actor\<close> and a target that is
  the index of a node labelled \<^verbatim>\<open>movie\<close>; and so has every response that the projection
  returns on records of any shape. An actor named like a movie changes nothing:
  whatever the node list, the search of the handler only ever returns the index of a
  node labelled \<^verbatim>\<open>actor\<close> with the actor's name.
\<close>

theorem graph_links_actor_to_movie:
  "(\<exists>d3. graphProjection (map graphRecord_of rows) = Inr d3
      \<and> (\<forall>l \<in> set (Links d3). actor_to_movie (Nodes d3) l))
   \<and> (\<forall>records d3. graphProjection records = Inr d3
          \<longrightarrow> (\<forall>l \<in> set (Links d3). actor_to_movie (Nodes d3) l))
   \<and> (\<forall>nodes a i. find_node (AnyString a) nodes 0 = int i
          \<longrightarrow> i < length nodes \<and> nodes ! i = \<lparr>Title = a, Label = ''actor''\<rparr>)"
proof -
  have 1: "\<exists>d3. graphProjection (map graphRecord_of rs) = Inr d3
      \<and> (\<forall>l \<in> set (Links d3). actor_to_movie (Nodes d3) l)" for rs
    using spec_rows_links [of rs] by (simp add: graphProjection_rows)
  have 2: "\<forall>l \<in> set (Links d3). actor_to_movie (Nodes d3) l"
    if "graphProjection records = Inr d3" for records d3
    using 1 [of "map graphRow_of records"] graphProjection_decode [OF that] by auto
  have 3: "i < length nodes \<and> nodes ! i = \<lparr>Title = a, Label = ''actor''\<rparr>"
    if "find_node (AnyString a) nodes 0 = int i" for nodes a i
  proof -
    from that have "spec_search nodes a = Some i"
      by (simp add: find_node_spec_search split: option.splits)
    from spec_search_Some [OF this] show ?thesis by (simp add: actor_node_def)
  qed
  from 1 [of rows] 2 3 show ?thesis
    by blast
qed

text \<open>The movie Alien with an actor named Alien: two nodes, and the link runs from the actor.\<close>

theorem graph_links_actor_to_movie_witness:
  "graphProjection (map graphRecord_of [(''Alien'', [''Alien''])])
     = Inr \<lparr>Nodes = [\<lparr>Title = ''Alien'', Label = ''movie''\<rparr>, \<lparr>Title = ''Alien'', Label = ''actor''\<rparr>],
            Links = [\<lparr>Source = 1, Target = 0\<rparr>]\<rparr>
   \<and> actor_to_movie [\<lparr>Title = ''Alien'', Label = ''movie''\<rparr>, \<lparr>Title = ''Alien'', Label = ''actor''\<rparr>]
         \<lparr>Source = 1, Target = 0\<rparr>
   \<and> find_node (AnyString ''Alien'')
         [\<lparr>Title = ''Alien'', Label = ''movie''\<rparr>, \<lparr>Title = ''Alien'', Label = ''actor''\<rparr>] 0 = int 1
   \<and> [\<lparr>Title = ''Alien'', Label = ''movie''\<rparr>, \<lparr>Title = ''Alien'', Label = ''actor''\<rparr>] ! 1
       = \<lparr>Title = ''Alien'', Label = ''actor''\<rparr>"
proof -
  let ?ns = "[\<lparr>Title = ''Alien'', Label = ''movie''\<rparr>, \<lparr>Title = ''Alien'', Label = ''actor''\<rparr>]"
  let ?d = "\<lparr>Nodes = ?ns, Links = [\<lparr>Source = 1, Target = 0\<rparr>]\<rparr>"
  have ev: "graphProjection (map graphRecord_of [(''Alien'', [''Alien''])]) = Inr ?d"
    by (simp add: graphProjection_def graphRecord_of_def GetRecordValue_string_def
        GetRecordValue_slice_def GetRecordValue_def Get_def Let_def)
  have found: "find_node (AnyString ''Alien'') ?ns 0 = int 1"
    by simp
  note inst = graph_links_actor_to_movie [of "[(''Alien'', [''Alien''])]"]
  from inst have "\<forall>l \<in> set (Links ?d). actor_to_movie (Nodes ?d) l"
    using ev by blast
  then have link: "actor_to_movie ?ns \<lparr>Source = 1, Target = 0\<rparr>"
    by simp
  from inst found have "?ns ! 1 = \<lparr>Title = ''Alien'', Label = ''actor''\<rparr>"
    by blast
  with ev link found show ?thesis by simp
qed

subsection \<open>How many nodes and links\<close>

lemma actor_count:
  "length (filter (\<lambda>n. Label n = ''actor'') (fst (spec_rows rows)))
     = card (set (concat (map snd rows)))"
proof -
  let ?actors = "filter (\<lambda>n. Label n = ''actor'') (fst (spec_rows rows))"
  have "distinct ?actors"
    using spec_rows_actors [of rows] by simp
  then have "length ?actors = card (set ?actors)"
    by (rule distinct_card [symmetric])
  also have "\<dots> = card (actor_node ` set (concat (map snd rows)))"
    using spec_rows_actors [of rows] by simp
  also have "\<dots> = card (set (concat (map snd rows)))"
    by (intro card_image inj_onI) simp
  finally show ?thesis .
qed

lemma link_count:
  "length (snd (spec_rows rows)) = length (concat (map snd rows))"
proof -
  have "length (map Source (snd (spec_rows rows))) = length (concat (map snd rows))"
    unfolding spec_rows_sources by simp
  then show ?thesis by simp
qed

text \<open>The last row of a sequence: what it adds to the result of the rows before it.\<close>

lemma spec_rows_last_row:
  "\<exists>actors new.
      fst (spec_rows (rows @ [row])) = fst (spec_rows rows) @ movie_node (fst row) # actors
    \<and> list_all (\<lambda>n. Label n = ''actor'') actors
    \<and> snd (spec_rows (rows @ [row])) = snd (spec_rows rows) @ new
    \<and> length new = length (snd row)
    \<and> list_all (\<lambda>l. Target l = int (length (fst (spec_rows rows)))) new"
proof -
  obtain nodes links where st: "spec_rows rows = (nodes, links)" by (cases "spec_rows rows")
  obtain nodes' links' where st': "spec_row (nodes, links) row = (nodes', links')"
    by (cases "spec_row (nodes, links) row")
  from spec_row_step [OF st'] obtain extra where
    e: "nodes' = nodes @ movie_node (fst row) # extra"
       "set extra = actor_node ` set (snd row) - set nodes"
       "links' = links @ map (\<lambda>a. \<lparr>Source = find_node (AnyString a) nodes' 0,
                                      Target = int (length nodes)\<rparr>) (snd row)"
    by blast
  have "list_all (\<lambda>n. Label n = ''actor'') extra"
    using e(2) by (auto simp: list_all_iff)
  moreover have "list_all (\<lambda>l. Target l = int (length nodes))
                   (map (\<lambda>a. \<lparr>Source = find_node (AnyString a) nodes' 0,
                                Target = int (length nodes)\<rparr>) (snd row))"
    by (simp add: list_all_iff)
  ultimately show ?thesis
    using e(1,3) st st' by (simp add: spec_rows_snoc)
qed

text \<open>
  C3. On every sequence of graph rows the projection returns a response whose movie
  nodes are, in order, the titles of the rows, one node per row even when titles
  repeat; whose actor nodes are pairwise different and carry exactly the names that
  occur in the rows, so that there are as many as there are different names; and which
  has as many links as the rows carry names. Row by row: a further row adds its movie
  node, then nodes labelled \<^verbatim>\<open>actor\<close> only, and exactly one link per name of the row, each
  with the new movie node as target. Every response that the projection returns on
  records of any shape has one movie node per record, one actor node per different
  name and one link per name.
\<close>

theorem graph_counts:
  "(\<exists>d3. graphProjection (map graphRecord_of rows) = Inr d3
     \<and> map Title (filter (\<lambda>n. Label n = ''movie'') (Nodes d3)) = map fst rows
     \<and> length (filter (\<lambda>n. Label n = ''movie'') (Nodes d3)) = length rows
     \<and> distinct (filter (\<lambda>n. Label n = ''actor'') (Nodes d3))
     \<and> set (map Title (filter (\<lambda>n. Label n = ''actor'') (Nodes d3))) = set (concat (map snd rows))
     \<and> length (filter (\<lambda>n. Label n = ''actor'') (Nodes d3)) = card (set (concat (map snd rows)))
     \<and> length (Links d3) = length (concat (map snd rows))
     \<and> (\<exists>d3' actors new.
           graphProjection (map graphRecord_of (rows @ [row])) = Inr d3'
         \<and> Nodes d3' = Nodes d3 @ \<lparr>Title = fst row, Label = ''movie''\<rparr> # actors
         \<and> list_all (\<lambda>n. Label n = ''actor'') actors
         \<and> Links d3' = Links d3 @ new
         \<and> length new = length (snd row)
         \<and> list_all (\<lambda>l. Target l = int (length (Nodes d3))) new))
   \<and> (\<forall>records d3. graphProjection records = Inr d3 \<longrightarrow>
          length (filter (\<lambda>n. Label n = ''movie'') (Nodes d3)) = length records
        \<and> length (filter (\<lambda>n. Label n = ''actor'') (Nodes d3))
            = card (set (concat (map (\<lambda>r. snd (graphRow_of r)) records)))
        \<and> length (Links d3) = length (concat (map (\<lambda>r. snd (graphRow_of r)) records)))"
proof -
  define d where "d = \<lparr>Nodes = fst (spec_rows rows), Links = snd (spec_rows rows)\<rparr>"
  define d' where "d' = \<lparr>Nodes = fst (spec_rows (rows @ [row])),
                          Links = snd (spec_rows (rows @ [row]))\<rparr>"
  have proj: "graphProjection (map graphRecord_of rows) = Inr d"
    unfolding d_def by (rule graphProjection_rows)
  have proj': "graphProjection (map graphRecord_of (rows @ [row])) = Inr d'"
    unfolding d'_def by (rule graphProjection_rows)
  have movies: "map Title (filter (\<lambda>n. Label n = ''movie'') (Nodes d)) = map fst rows"
    unfolding d_def using spec_rows_movies [of rows] by simp
  then have "length (map Title (filter (\<lambda>n. Label n = ''movie'') (Nodes d))) = length (map fst rows)"
    by (rule arg_cong)
  then have n_movies: "length (filter (\<lambda>n. Label n = ''movie'') (Nodes d)) = length rows"
    by simp
  have dist: "distinct (filter (\<lambda>n. Label n = ''actor'') (Nodes d))"
    unfolding d_def using spec_rows_actors [of rows] by simp
  have "set (map Title (filter (\<lambda>n. Label n = ''actor'') (Nodes d)))
          = Title ` actor_node ` set (concat (map snd rows))"
    unfolding d_def using spec_rows_actors [of rows] by simp
  then have names: "set (map Title (filter (\<lambda>n. Label n = ''actor'') (Nodes d)))
                      = set (concat (map snd rows))"
    by (simp add: image_image)
  have n_actors: "length (filter (\<lambda>n. Label n = ''actor'') (Nodes d))
                    = card (set (concat (map snd rows)))"
    unfolding d_def using actor_count [of rows] by simp
  have n_links: "length (Links d) = length (concat (map snd rows))"
    unfolding d_def using link_count [of rows] by simp
  from spec_rows_last_row [of rows row] obtain actors new where
    "fst (spec_rows (rows @ [row])) = fst (spec_rows rows) @ movie_node (fst row) # actors"
    "list_all (\<lambda>n. Label n = ''actor'') actors"
    "snd (spec_rows (rows @ [row])) = snd (spec_rows rows) @ new"
    "length new = length (snd row)"
    "list_all (\<lambda>l. Target l = int (length (fst (spec_rows rows)))) new"
    by blast
  then have last:
    "Nodes d' = Nodes d @ \<lparr>Title = fst row, Label = ''movie''\<rparr> # actors"
    "list_all (\<lambda>n. Label n = ''actor'') actors"
    "Links d' = Links d @ new"
    "length new = length (snd row)"
    "list_all (\<lambda>l. Target l = int (length (Nodes d))) new"
    by (simp_all add: d_def d'_def movie_node_def)
  have untyped:
    "length (filter (\<lambda>n. Label n = ''movie'') (Nodes d3)) = length records
     \<and> length (filter (\<lambda>n. Label n = ''actor'') (Nodes d3))
         = card (set (concat (map (\<lambda>r. snd (graphRow_of r)) records)))
     \<and> length (Links d3) = length (concat (map (\<lambda>r. snd (graphRow_of r)) records))"
    if "graphProjection records = Inr d3" for records d3
  proof -
    let ?rows = "map graphRow_of records"
    from graphProjection_decode [OF that]
    have d3: "d3 = \<lparr>Nodes = fst (spec_rows ?rows), Links = snd (spec_rows ?rows)\<rparr>"
      by (simp only: graphProjection_rows sum.inject)
    have "length (map Title (filter (\<lambda>n. Label n = ''movie'') (fst (spec_rows ?rows))))
            = length (map fst ?rows)"
      by (simp only: spec_rows_movies)
    then have "length (filter (\<lambda>n. Label n = ''movie'') (fst (spec_rows ?rows))) = length records"
      by simp
    moreover have "map snd ?rows = map (\<lambda>r. snd (graphRow_of r)) records"
      by simp
    ultimately show ?thesis
      using actor_count [of ?rows] link_count [of ?rows] by (simp add: d3 comp_def)
  qed
  from proj proj' movies n_movies dist names n_actors n_links last untyped show ?thesis
    by blast
qed

text \<open>
  Three records, one without a cast and one without a title: three movie nodes, one of
  them with the empty title, and two actor nodes for the two names.
\<close>

theorem graph_counts_witness:
  "graphProjection
     [[(''movie'', AnyString ''Top Gun''), (''cast'', AnySlice [AnyString ''Tom Cruise''])],
      [(''movie'', AnyString ''Top Gun'')],
      [(''cast'', AnySlice [AnyString ''Tom Cruise'', AnyString ''Val Kilmer''])]]
     = Inr \<lparr>Nodes = [\<lparr>Title = ''Top Gun'', Label = ''movie''\<rparr>,
                     \<lparr>Title = ''Tom Cruise'', Label = ''actor''\<rparr>,
                     \<lparr>Title = ''Top Gun'', Label = ''movie''\<rparr>,
                     \<lparr>Title = [], Label = ''movie''\<rparr>,
                     \<lparr>Title = ''Val Kilmer'', Label = ''actor''\<rparr>],
            Links = [\<lparr>Source = 1, Target = 0\<rparr>, \<lparr>Source = 1, Target = 3\<rparr>,
                     \<lparr>Source = 4, Target = 3\<rparr>]\<rparr>
   \<and> length (filter (\<lambda>n. Label n = ''movie'')
         [\<lparr>Title = ''Top Gun'', Label = ''movie''\<rparr>,
          \<lparr>Title = ''Tom Cruise'', Label = ''actor''\<rparr>,
          \<lparr>Title = ''Top Gun'', Label = ''movie''\<rparr>,
          \<lparr>Title = [], Label = ''movie''\<rparr>,
          \<lparr>Title = ''Val Kilmer'', Label = ''actor''\<rparr>]) = 3
   \<and> length (filter (\<lambda>n. Label n = ''actor'')
         [\<lparr>Title = ''Top Gun'', Label = ''movie''\<rparr>,
          \<lparr>Title = ''Tom Cruise'', Label = ''actor''\<rparr>,
          \<lparr>Title = ''Top Gun'', Label = ''movie''\<rparr>,
          \<lparr>Title = [], Label = ''movie''\<rparr>,
          \<lparr>Title = ''Val Kilmer'', Label = ''actor''\<rparr>])
       = 2"
proof -
  let ?records = "[[(''movie'', AnyString ''Top Gun''), (''cast'', AnySlice [AnyString ''Tom Cruise''])],
      [(''movie'', AnyString ''Top Gun'')],
      [(''cast'', AnySlice [AnyString ''Tom Cruise'', AnyString ''Val Kilmer''])]]"
  let ?d = "\<lparr>Nodes = [\<lparr>Title = ''Top Gun'', Label = ''movie''\<rparr>,
                     \<lparr>Title = ''Tom Cruise'', Label = ''actor''\<rparr>,
                     \<lparr>Title = ''Top Gun'', Label = ''movie''\<rparr>,
                     \<lparr>Title = [], Label = ''movie''\<rparr>,
                     \<lparr>Title = ''Val Kilmer'', Label = ''actor''\<rparr>],
            Links = [\<lparr>Source = 1, Target = 0\<rparr>, \<lparr>Source = 1, Target = 3\<rparr>,
                     \<lparr>Source = 4, Target = 3\<rparr>]\<rparr>"
  have ev: "graphProjection ?records = Inr ?d"
    by (simp add: graphProjection_def GetRecordValue_string_def
        GetRecordValue_slice_def GetRecordValue_def Get_def Let_def)
  have names: "set (concat (map (\<lambda>r. snd (graphRow_of r)) ?records)) = {''Tom Cruise'', ''Val Kilmer''}"
    by (simp add: graphRow_of_def GetRecordValue_string_def
        GetRecordValue_slice_def GetRecordValue_def Get_def)
  from graph_counts [of "[]" "([], [])"] ev
  have "length (filter (\<lambda>n. Label n = ''movie'') (Nodes ?d)) = length ?records
        \<and> length (filter (\<lambda>n. Label n = ''actor'') (Nodes ?d))
            = card (set (concat (map (\<lambda>r. snd (graphRow_of r)) ?records)))"
    by blast
  then have "length (filter (\<lambda>n. Label n = ''movie'') (Nodes ?d)) = 3
        \<and> length (filter (\<lambda>n. Label n = ''actor'') (Nodes ?d)) = 2"
    unfolding names by simp
  with ev show ?thesis by simp
qed

subsection \<open>An actor of several movies, and a name twice in one row\<close>

lemma find_node_index:
  assumes "a \<in> set (concat (map snd rows))"
  shows "\<exists>k. find_node (AnyString a) (fst (spec_rows rows)) 0 = int k
             \<and> k < length (fst (spec_rows rows))
             \<and> fst (spec_rows rows) ! k = actor_node a"
proof -
  let ?f = "find_node (AnyString a) (fst (spec_rows rows)) 0"
  from find_node_nth [OF spec_rows_actor_mem [OF assms]]
  have "?f = int (nat ?f) \<and> nat ?f < length (fst (spec_rows rows))
        \<and> fst (spec_rows rows) ! nat ?f = actor_node a"
    by simp
  then show ?thesis by blast
qed

text \<open>
  C4. When a name \<open>a\<close> is in the cast of row \<open>i\<close> and of a later row \<open>j\<close>, the response
  has exactly one node for the actor \<open>a\<close>, at an index \<open>k\<close>; the movie nodes of the two
  rows stand at two different indices (where the node list ended after the rows
  before each); both movies have a link with source \<open>k\<close>; and the links with source
  \<open>k\<close> are as many as the occurrences of \<open>a\<close> in all casts, at least two. Meeting the
  actor once more adds a link with source \<open>k\<close> and no node.
\<close>

theorem graph_shared_actor:
  assumes "i < j" and "j < length rows"
    and "a \<in> set (snd (rows ! i))" and "a \<in> set (snd (rows ! j))"
  shows "\<exists>d3 di dj k.
           graphProjection (map graphRecord_of rows) = Inr d3
         \<and> graphProjection (map graphRecord_of (take i rows)) = Inr di
         \<and> graphProjection (map graphRecord_of (take j rows)) = Inr dj
         \<and> length (filter (\<lambda>n. n = \<lparr>Title = a, Label = ''actor''\<rparr>) (Nodes d3)) = 1
         \<and> k < length (Nodes d3)
         \<and> Nodes d3 ! k = \<lparr>Title = a, Label = ''actor''\<rparr>
         \<and> find_node (AnyString a) (Nodes d3) 0 = int k
         \<and> length (Nodes di) < length (Nodes dj)
         \<and> length (Nodes dj) < length (Nodes d3)
         \<and> Nodes d3 ! length (Nodes di) = \<lparr>Title = fst (rows ! i), Label = ''movie''\<rparr>
         \<and> Nodes d3 ! length (Nodes dj) = \<lparr>Title = fst (rows ! j), Label = ''movie''\<rparr>
         \<and> \<lparr>Source = int k, Target = int (length (Nodes di))\<rparr> \<in> set (Links d3)
         \<and> \<lparr>Source = int k, Target = int (length (Nodes dj))\<rparr> \<in> set (Links d3)
         \<and> length (filter (\<lambda>l. Source l = int k) (Links d3)) = count_list (concat (map snd rows)) a
         \<and> 2 \<le> count_list (concat (map snd rows)) a
         \<and> graphActors m d3 [AnyString a]
             = Inr (d3\<lparr>Links := Links d3 @ [\<lparr>Source = int k, Target = m\<rparr>]\<rparr>)"
proof -
  define d3 where "d3 = \<lparr>Nodes = fst (spec_rows rows), Links = snd (spec_rows rows)\<rparr>"
  define di where "di = \<lparr>Nodes = fst (spec_rows (take i rows)), Links = snd (spec_rows (take i rows))\<rparr>"
  define dj where "dj = \<lparr>Nodes = fst (spec_rows (take j rows)), Links = snd (spec_rows (take j rows))\<rparr>"
  have i: "i < length rows" using assms(1,2) by simp
  have mem: "a \<in> set (concat (map snd rows))"
    using i assms(3) by (rule row_names_subset)
  have p3: "graphProjection (map graphRecord_of rows) = Inr d3"
    unfolding d3_def by (rule graphProjection_rows)
  have pi: "graphProjection (map graphRecord_of (take i rows)) = Inr di"
    unfolding di_def by (rule graphProjection_rows)
  have pj: "graphProjection (map graphRecord_of (take j rows)) = Inr dj"
    unfolding dj_def by (rule graphProjection_rows)
  from find_node_index [OF mem] obtain k where k:
    "find_node (AnyString a) (Nodes d3) 0 = int k" "k < length (Nodes d3)"
    "Nodes d3 ! k = \<lparr>Title = a, Label = ''actor''\<rparr>"
    by (auto simp: d3_def actor_node_def)
  have one: "length (filter (\<lambda>n. n = \<lparr>Title = a, Label = ''actor''\<rparr>) (Nodes d3)) = 1"
    using one_actor_node [OF mem] by (simp add: d3_def actor_node_def)
  have lt: "length (Nodes di) < length (Nodes dj)"
    using row_movie_index_mono [of i j rows] assms(1,2) by (simp add: di_def dj_def)
  have mi: "Nodes d3 ! length (Nodes di) = \<lparr>Title = fst (rows ! i), Label = ''movie''\<rparr>"
    using row_movie_node [OF i] by (simp add: d3_def di_def movie_node_def)
  have mj: "length (Nodes dj) < length (Nodes d3)"
    "Nodes d3 ! length (Nodes dj) = \<lparr>Title = fst (rows ! j), Label = ''movie''\<rparr>"
    using row_movie_node [OF assms(2)] by (simp_all add: d3_def dj_def movie_node_def)
  have li: "\<lparr>Source = int k, Target = int (length (Nodes di))\<rparr> \<in> set (Links d3)"
    using row_link_mem [OF i assms(3)] k(1) by (simp add: d3_def di_def)
  have lj: "\<lparr>Source = int k, Target = int (length (Nodes dj))\<rparr> \<in> set (Links d3)"
    using row_link_mem [OF assms(2) assms(4)] k(1) by (simp add: d3_def dj_def)
  have cnt: "length (filter (\<lambda>l. Source l = int k) (Links d3)) = count_list (concat (map snd rows)) a"
    using source_count [OF mem] k(1) by (simp add: d3_def)
  have two: "2 \<le> count_list (concat (map snd rows)) a"
  proof -
    let ?li = "\<lparr>Source = int k, Target = int (length (Nodes di))\<rparr>"
    let ?lj = "\<lparr>Source = int k, Target = int (length (Nodes dj))\<rparr>"
    let ?S = "set (filter (\<lambda>l. Source l = int k) (Links d3))"
    have "?li \<in> ?S" "?lj \<in> ?S" "?li \<noteq> ?lj"
      using li lj lt by auto
    then have "{?li, ?lj} \<subseteq> ?S" "card {?li, ?lj} = 2"
      by auto
    then have "2 \<le> card ?S"
      by (metis card_mono List.finite_set)
    also have "\<dots> \<le> length (filter (\<lambda>l. Source l = int k) (Links d3))"
      by (rule card_length)
    finally show ?thesis using cnt by simp
  qed
  have again: "graphActors m d3 [AnyString a]
                 = Inr (d3\<lparr>Links := Links d3 @ [\<lparr>Source = int k, Target = m\<rparr>]\<rparr>)"
    using k(1) by (simp add: Let_def)
  from p3 pi pj one k lt mi mj li lj cnt two again show ?thesis
    by blast
qed

text \<open>Tom Cruise in Top Gun and in Days of Thunder: node 1, and two links from it.\<close>

theorem graph_shared_actor_witness:
  "(0::nat) < 1 \<and> 1 < length [(''Top Gun'', [''Tom Cruise'']), (''Days of Thunder'', [''Tom Cruise''])]
   \<and> graphProjection (map graphRecord_of
        [(''Top Gun'', [''Tom Cruise'']), (''Days of Thunder'', [''Tom Cruise''])])
      = Inr \<lparr>Nodes = [\<lparr>Title = ''Top Gun'', Label = ''movie''\<rparr>,
                      \<lparr>Title = ''Tom Cruise'', Label = ''actor''\<rparr>,
                      \<lparr>Title = ''Days of Thunder'', Label = ''movie''\<rparr>],
             Links = [\<lparr>Source = 1, Target = 0\<rparr>, \<lparr>Source = 1, Target = 2\<rparr>]\<rparr>
   \<and> length (filter (\<lambda>l. Source l = 1) [\<lparr>Source = 1, Target = 0\<rparr>, \<lparr>Source = 1, Target = 2\<rparr>]) = 2"
proof -
  let ?rows = "[(''Top Gun'', [''Tom Cruise'']), (''Days of Thunder'', [''Tom Cruise''])]"
  let ?d = "\<lparr>Nodes = [\<lparr>Title = ''Top Gun'', Label = ''movie''\<rparr>,
                      \<lparr>Title = ''Tom Cruise'', Label = ''actor''\<rparr>,
                      \<lparr>Title = ''Days of Thunder'', Label = ''movie''\<rparr>],
             Links = [\<lparr>Source = 1, Target = 0\<rparr>, \<lparr>Source = 1, Target = 2\<rparr>]\<rparr>"
  have ev: "graphProjection (map graphRecord_of ?rows) = Inr ?d"
    by (simp add: graphProjection_def graphRecord_of_def GetRecordValue_string_def
        GetRecordValue_slice_def GetRecordValue_def Get_def Let_def)
  have h: "(0::nat) < 1" "1 < length ?rows"
    "''Tom Cruise'' \<in> set (snd (?rows ! 0))" "''Tom Cruise'' \<in> set (snd (?rows ! 1))"
    by simp_all
  from graph_shared_actor [OF h, of 0] obtain k where
    "find_node (AnyString ''Tom Cruise'') (Nodes ?d) 0 = int k"
    "length (filter (\<lambda>l. Source l = int k) (Links ?d)) = count_list (concat (map snd ?rows)) ''Tom Cruise''"
    unfolding ev by blast
  then have "length (filter (\<lambda>l. Source l = 1) (Links ?d)) = 2"
    by simp
  with ev h show ?thesis by simp
qed


text \<open>
  C10. When row \<open>i\<close> carries a name \<open>a\<close> at least twice, the response has exactly one
  node for the actor \<open>a\<close>, at an index \<open>k\<close>, and the link from \<open>k\<close> to the movie node of
  row \<open>i\<close> occurs in the link list as often as \<open>a\<close> occurs in the row: twice for a name
  that is there twice.
\<close>

theorem graph_repeated_name_in_row:
  assumes "i < length rows" and "2 \<le> count_list (snd (rows ! i)) a"
  shows "\<exists>d3 di k.
           graphProjection (map graphRecord_of rows) = Inr d3
         \<and> graphProjection (map graphRecord_of (take i rows)) = Inr di
         \<and> length (filter (\<lambda>n. n = \<lparr>Title = a, Label = ''actor''\<rparr>) (Nodes d3)) = 1
         \<and> k < length (Nodes d3)
         \<and> Nodes d3 ! k = \<lparr>Title = a, Label = ''actor''\<rparr>
         \<and> find_node (AnyString a) (Nodes d3) 0 = int k
         \<and> length (Nodes di) < length (Nodes d3)
         \<and> Nodes d3 ! length (Nodes di) = \<lparr>Title = fst (rows ! i), Label = ''movie''\<rparr>
         \<and> length (filter (\<lambda>l. l = \<lparr>Source = int k, Target = int (length (Nodes di))\<rparr>)
                     (Links d3))
             = count_list (snd (rows ! i)) a"
proof -
  define d3 where "d3 = \<lparr>Nodes = fst (spec_rows rows), Links = snd (spec_rows rows)\<rparr>"
  define di where "di = \<lparr>Nodes = fst (spec_rows (take i rows)), Links = snd (spec_rows (take i rows))\<rparr>"
  have "count_list (snd (rows ! i)) a \<noteq> 0"
    using assms(2) by simp
  then have a: "a \<in> set (snd (rows ! i))"
    by (simp add: count_list_0_iff)
  have mem: "a \<in> set (concat (map snd rows))"
    using assms(1) a by (rule row_names_subset)
  have p3: "graphProjection (map graphRecord_of rows) = Inr d3"
    unfolding d3_def by (rule graphProjection_rows)
  have pi: "graphProjection (map graphRecord_of (take i rows)) = Inr di"
    unfolding di_def by (rule graphProjection_rows)
  from find_node_index [OF mem] obtain k where k:
    "find_node (AnyString a) (Nodes d3) 0 = int k" "k < length (Nodes d3)"
    "Nodes d3 ! k = \<lparr>Title = a, Label = ''actor''\<rparr>"
    by (auto simp: d3_def actor_node_def)
  have one: "length (filter (\<lambda>n. n = \<lparr>Title = a, Label = ''actor''\<rparr>) (Nodes d3)) = 1"
    using one_actor_node [OF mem] by (simp add: d3_def actor_node_def)
  have mi: "length (Nodes di) < length (Nodes d3)"
    "Nodes d3 ! length (Nodes di) = \<lparr>Title = fst (rows ! i), Label = ''movie''\<rparr>"
    using row_movie_node [OF assms(1)] by (simp_all add: d3_def di_def movie_node_def)
  have cnt: "length (filter (\<lambda>l. l = \<lparr>Source = int k, Target = int (length (Nodes di))\<rparr>)
                       (Links d3))
               = count_list (snd (rows ! i)) a"
    using row_link_count [OF assms(1) a] k(1) by (simp add: d3_def di_def)
  from p3 pi one k mi cnt show ?thesis
    by blast
qed

text \<open>One row with the same name twice: one actor node, the same link twice.\<close>

theorem graph_repeated_name_in_row_witness:
  "(0::nat) < length [(''Big'', [''Tom Hanks'', ''Tom Hanks''])]
   \<and> 2 \<le> count_list (snd ([(''Big'', [''Tom Hanks'', ''Tom Hanks''])] ! 0)) ''Tom Hanks''
   \<and> graphProjection (map graphRecord_of [(''Big'', [''Tom Hanks'', ''Tom Hanks''])])
      = Inr \<lparr>Nodes = [\<lparr>Title = ''Big'', Label = ''movie''\<rparr>,
                      \<lparr>Title = ''Tom Hanks'', Label = ''actor''\<rparr>],
             Links = [\<lparr>Source = 1, Target = 0\<rparr>, \<lparr>Source = 1, Target = 0\<rparr>]\<rparr>
   \<and> length (filter (\<lambda>l. l = \<lparr>Source = 1, Target = 0\<rparr>)
               [\<lparr>Source = 1, Target = 0\<rparr>, \<lparr>Source = 1, Target = 0\<rparr>]) = 2"
proof -
  let ?rows = "[(''Big'', [''Tom Hanks'', ''Tom Hanks''])]"
  let ?d = "\<lparr>Nodes = [\<lparr>Title = ''Big'', Label = ''movie''\<rparr>,
                      \<lparr>Title = ''Tom Hanks'', Label = ''actor''\<rparr>],
             Links = [\<lparr>Source = 1, Target = 0\<rparr>, \<lparr>Source = 1, Target = 0\<rparr>]\<rparr>"
  have ev: "graphProjection (map graphRecord_of ?rows) = Inr ?d"
    by (simp add: graphProjection_def graphRecord_of_def GetRecordValue_string_def
        GetRecordValue_slice_def GetRecordValue_def Get_def Let_def)
  have ev0: "graphProjection (map graphRecord_of (take 0 ?rows)) = Inr \<lparr>Nodes = [], Links = []\<rparr>"
    by (simp add: graphProjection_def)
  have h: "(0::nat) < length ?rows" "2 \<le> count_list (snd (?rows ! 0)) ''Tom Hanks''"
    by simp_all
  from graph_repeated_name_in_row [OF h] obtain k where
    "find_node (AnyString ''Tom Hanks'') (Nodes ?d) 0 = int k"
    "length (filter (\<lambda>l. l = \<lparr>Source = int k,
                                  Target = int (length (Nodes \<lparr>Nodes = [], Links = []\<rparr>))\<rparr>)
               (Links ?d))
       = count_list (snd (?rows ! 0)) ''Tom Hanks''"
    unfolding ev ev0 by blast
  then have "length (filter (\<lambda>l. l = \<lparr>Source = 1, Target = 0\<rparr>) (Links ?d)) = 2"
    by simp
  with ev h show ?thesis by simp
qed

subsection \<open>The detail projection\<close>

lemma toStringSlice_loop_strings:
  "toStringSlice_loop acc (map AnyString strs) = Inr (acc @ strs)"
  by (induction strs arbitrary: acc) auto

lemma toStringSlice_strings: "toStringSlice (map AnyString strs) = Inr strs"
  by (simp add: toStringSlice_def toStringSlice_loop_strings)

lemma movieRecord_row:
  "movieRecord movie (detailRecord_of row)
     = Inr (movie\<lparr>Movie.Title := or_empty (row_title row), Cast := Cast movie @ [person_of row]\<rparr>)"
  by (cases "row_title row"; cases "row_name row"; cases "row_job row"; cases "row_role row")
     (simp_all add: movieRecord_def detailRecord_of_def nullable_def GetRecordValue_string_def
        GetRecordValue_def Get_def Let_def toStringSlice_strings person_of_def or_empty_def)

lemma movieRecords_rows:
  "movieRecords movie (map detailRecord_of rows)
     = Inr (movie\<lparr>Movie.Title := (if rows = [] then Movie.Title movie else or_empty (row_title (last rows))),
                  Cast := Cast movie @ map person_of rows\<rparr>)"
proof (induction rows arbitrary: movie)
  case Nil
  show ?case by simp
next
  case (Cons row rows)
  show ?case
    by (simp add: movieRecord_row Cons.IH)
qed

text \<open>Records of any shape, when the loop returns.\<close>

lemma movieRecord_returns:
  assumes "movieRecord movie record = Inr movie'"
  shows "\<exists>strs. movie' = movie
           \<lparr>Movie.Title := fst (GetRecordValue_string record ''title''),
            Cast := Cast movie @ [\<lparr>Job = fst (GetRecordValue_string record ''job''),
                                  Role = strs,
                                  Name = fst (GetRecordValue_string record ''name'')\<rparr>]\<rparr>"
  using assms
  by (auto simp: movieRecord_def Let_def split: any.splits sum.splits)

lemma movieRecords_returns:
  assumes "movieRecords movie records = Inr movie'"
  shows "length (Cast movie') = length (Cast movie) + length records
       \<and> map Name (Cast movie') = map Name (Cast movie) @ map (\<lambda>r. fst (GetRecordValue_string r ''name'')) records
       \<and> map Job (Cast movie') = map Job (Cast movie) @ map (\<lambda>r. fst (GetRecordValue_string r ''job'')) records
       \<and> Movie.Title movie' = (if records = [] then Movie.Title movie
                                else fst (GetRecordValue_string (last records) ''title''))"
  using assms
proof (induction records arbitrary: movie)
  case Nil
  then show ?case by simp
next
  case (Cons rec records)
  from Cons.prems obtain m where m: "movieRecord movie rec = Inr m"
    and rest: "movieRecords m records = Inr movie'"
    by (auto split: sum.splits)
  from movieRecord_returns [OF m] obtain strs where
    "m = movie\<lparr>Movie.Title := fst (GetRecordValue_string rec ''title''),
            Cast := Cast movie @ [\<lparr>Job = fst (GetRecordValue_string rec ''job''),
                                  Role = strs,
                                  Name = fst (GetRecordValue_string rec ''name'')\<rparr>]\<rparr>"
    by blast
  with Cons.IH [OF rest] show ?case by simp
qed

text \<open>
  C6. On every sequence of detail rows (a title and a person whose name, job and roles
  may each be null) the detail projection returns a movie whose cast is, row by row and
  in row order, the person of the row, so the cast is as long as the row sequence; the
  title is the title of the last row, every row having set it; the handler writes that
  movie when the query succeeded. The one row of a movie without cast, with null name,
  job and roles, gives a cast of one person with empty name and empty job. Every movie
  that the projection returns on records of any shape has one person per record, with
  the name and the job read from the record, in record order.
\<close>

theorem detail_cast_per_row:
  "detailProjection (map detailRecord_of rows)
     = Inr \<lparr>Released = 0,
            Title = (if rows = [] then [] else or_empty (row_title (last rows))),
            Tagline = [], Votes = 0,
            Cast = map person_of rows\<rparr>
   \<and> length (map person_of rows) = length rows
   \<and> movieHandlerFunc (Some \<lparr>Records = map detailRecord_of rows, PropertiesSet = n\<rparr>, None)
       = Returned [] (Some \<lparr>Released = 0,
            Title = (if rows = [] then [] else or_empty (row_title (last rows))),
            Tagline = [], Votes = 0,
            Cast = map person_of rows\<rparr>)
   \<and> detailProjection (map detailRecord_of
         [\<lparr>row_title = Some ''The Matrix'', row_name = None, row_job = None, row_role = None\<rparr>])
       = Inr \<lparr>Released = 0, Title = ''The Matrix'', Tagline = [], Votes = 0,
              Cast = [\<lparr>Job = [], Role = [], Name = []\<rparr>]\<rparr>
   \<and> (\<forall>records movie. detailProjection records = Inr movie \<longrightarrow>
          length (Cast movie) = length records
        \<and> map Name (Cast movie) = map (\<lambda>r. fst (GetRecordValue_string r ''name'')) records
        \<and> map Job (Cast movie) = map (\<lambda>r. fst (GetRecordValue_string r ''job'')) records
        \<and> Movie.Title movie
            = (if records = [] then [] else fst (GetRecordValue_string (last records) ''title'')))"
proof -
  have gen: "detailProjection (map detailRecord_of rs)
               = Inr \<lparr>Released = 0,
                      Title = (if rs = [] then [] else or_empty (row_title (last rs))),
                      Tagline = [], Votes = 0,
                      Cast = map person_of rs\<rparr>" for rs
    by (simp add: detailProjection_def movieRecords_rows zero_Movie_def)
  have handler: "movieHandlerFunc (Some \<lparr>Records = map detailRecord_of rows, PropertiesSet = n\<rparr>, None)
       = Returned [] (Some \<lparr>Released = 0,
            Title = (if rows = [] then [] else or_empty (row_title (last rows))),
            Tagline = [], Votes = 0,
            Cast = map person_of rows\<rparr>)"
    by (simp add: movieHandlerFunc_def gen)
  have sentinel: "detailProjection (map detailRecord_of
         [\<lparr>row_title = Some ''The Matrix'', row_name = None, row_job = None, row_role = None\<rparr>])
       = Inr \<lparr>Released = 0, Title = ''The Matrix'', Tagline = [], Votes = 0,
              Cast = [\<lparr>Job = [], Role = [], Name = []\<rparr>]\<rparr>"
    unfolding gen by (simp add: person_of_def or_empty_def)
  have untyped: "length (Cast movie) = length records
        \<and> map Name (Cast movie) = map (\<lambda>r. fst (GetRecordValue_string r ''name'')) records
        \<and> map Job (Cast movie) = map (\<lambda>r. fst (GetRecordValue_string r ''job'')) records
        \<and> Movie.Title movie
            = (if records = [] then [] else fst (GetRecordValue_string (last records) ''title''))"
    if "detailProjection records = Inr movie" for records movie
    using movieRecords_returns [of zero_Movie records movie] that
    by (simp add: detailProjection_def zero_Movie_def)
  from gen [of rows] handler sentinel untyped show ?thesis
    by simp
qed

text \<open>The record of the one row of a movie without cast, as the driver hands it over.\<close>

theorem detail_cast_per_row_witness:
  "detailProjection
     [[(''title'', AnyString ''The Matrix''), (''name'', AnyNil), (''job'', AnyNil), (''role'', AnyNil)]]
     = Inr \<lparr>Released = 0, Title = ''The Matrix'', Tagline = [], Votes = 0,
            Cast = [\<lparr>Job = [], Role = [], Name = []\<rparr>]\<rparr>
   \<and> length [\<lparr>Job = [], Role = [], Name = []\<rparr>] = (1::nat)
   \<and> map Name [\<lparr>Job = [], Role = [], Name = []\<rparr>] = [[]]
   \<and> map Job [\<lparr>Job = [], Role = [], Name = []\<rparr>] = [[]]"
proof -
  let ?records = "[[(''title'', AnyString ''The Matrix''), (''name'', AnyNil), (''job'', AnyNil),
                    (''role'', AnyNil)]]"
  let ?m = "\<lparr>Released = 0, Title = ''The Matrix'', Tagline = [], Votes = 0,
            Cast = [\<lparr>Job = [], Role = [], Name = []\<rparr>]\<rparr>"
  have ev: "detailProjection ?records = Inr ?m"
    by (simp add: detailProjection_def movieRecord_def zero_Movie_def GetRecordValue_string_def
        GetRecordValue_def Get_def Let_def)
  from detail_cast_per_row [of "[]" 0] ev
  have "length (Cast ?m) = length ?records
        \<and> map Name (Cast ?m) = map (\<lambda>r. fst (GetRecordValue_string r ''name'')) ?records
        \<and> map Job (Cast ?m) = map (\<lambda>r. fst (GetRecordValue_string r ''job'')) ?records"
    by blast
  then have "length (Cast ?m) = 1 \<and> map Name (Cast ?m) = [[]] \<and> map Job (Cast ?m) = [[]]"
    by (simp add: GetRecordValue_string_def GetRecordValue_def Get_def)
  with ev show ?thesis by simp
qed

subsection \<open>The handlers when the query fails\<close>

text \<open>
  C5. The query fails: the driver returns the \<^verbatim>\<open>nil\<close> result and the error. The movie, vote
  and graph handlers dereference the result before they test the error, and panic; the
  lines that would log the error are not reached. The search handler tests the error
  first: it logs it and returns without a body.
\<close>

theorem query_failure_panics:
  "movieHandlerFunc (None, Some e) = Panicked NilPointerDereference
   \<and> voteInMovieHandlerFunc (None, Some e) = Panicked NilPointerDereference
   \<and> graphHandler (\<lambda>limit. (None, Some e)) query = Panicked NilPointerDereference
   \<and> searchHandlerFunc (None, Some e) = Returned [Println ''error querying search:'' e] None"
  by (simp add: movieHandlerFunc_def voteInMovieHandlerFunc_def graphHandler_def graphRespond_def
      searchHandlerFunc_def)

subsection \<open>Columns of an unexpected shape\<close>

text \<open>
  The accessor of the driver yields the zero value for a column that is absent, null
  or of another type, and the value of the column otherwise.
\<close>

lemma GetRecordValue_defaults:
  "map_of record key = None \<Longrightarrow> fst (GetRecordValue downcast zero record key) = zero"
  "map_of record key = Some AnyNil \<Longrightarrow> fst (GetRecordValue downcast zero record key) = zero"
  "map_of record key = Some v \<Longrightarrow> downcast v = None \<Longrightarrow> fst (GetRecordValue downcast zero record key) = zero"
  "map_of record key = Some v \<Longrightarrow> v \<noteq> AnyNil \<Longrightarrow> downcast v = Some x \<Longrightarrow> fst (GetRecordValue downcast zero record key) = x"
  by (simp_all add: GetRecordValue_def Get_def)

text \<open>
  The body of the detail loop panics exactly on a record whose \<^verbatim>\<open>role\<close> column is a list
  with an element that is not a string.
\<close>

lemma toStringSlice_loop_panics_iff:
  "(\<exists>p. toStringSlice_loop acc es = Inl p) \<longleftrightarrow> \<not> list_all is_string es"
  by (induction acc es rule: toStringSlice_loop.induct) auto

lemma movieRecord_panics_iff:
  "(\<exists>p. movieRecord movie record = Inl p)
     \<longleftrightarrow> (\<exists>es. map_of record ''role'' = Some (AnySlice es) \<and> \<not> list_all is_string es)"
proof (cases "map_of record ''role''")
  case None
  then show ?thesis
    by (simp add: movieRecord_def Get_def Let_def)
next
  case (Some v)
  show ?thesis
  proof (cases v)
    case (AnySlice es)
    with Some toStringSlice_loop_panics_iff [of "[]" es] show ?thesis
      by (auto simp: movieRecord_def Get_def Let_def toStringSlice_def split: sum.splits)
  qed (use Some in \<open>simp_all add: movieRecord_def Get_def Let_def\<close>)
qed

text \<open>
  C7. A \<^verbatim>\<open>role\<close> list, or a \<^verbatim>\<open>cast\<close> list, with an element that is not a string: the type
  assertion \<^verbatim>\<open>e.(string)\<close> of \<^verbatim>\<open>toStringSlice\<close>, or \<^verbatim>\<open>actor.(string)\<close> of the graph loop,
  panics, and the handler writes no response.
\<close>

theorem malformed_list_panics:
  "detailProjection [[(''title'', AnyString ''The Matrix''), (''name'', AnyString ''Keanu Reeves''),
                      (''job'', AnyString ''acted''), (''role'', AnySlice [AnyInt64 42])]]
     = Inl InterfaceConversion
   \<and> movieHandlerFunc
       (Some \<lparr>Records = [[(''title'', AnyString ''The Matrix''), (''name'', AnyString ''Keanu Reeves''),
                           (''job'', AnyString ''acted''), (''role'', AnySlice [AnyInt64 42])]],
              PropertiesSet = 0\<rparr>, None)
     = Panicked InterfaceConversion
   \<and> graphProjection [[(''movie'', AnyString ''The Matrix''), (''cast'', AnySlice [AnyInt64 42])]]
     = Inl InterfaceConversion
   \<and> graphRespond
       (Some \<lparr>Records = [[(''movie'', AnyString ''The Matrix''), (''cast'', AnySlice [AnyInt64 42])]],
              PropertiesSet = 0\<rparr>, None)
     = Panicked InterfaceConversion"
  by (simp add: detailProjection_def movieHandlerFunc_def movieRecord_def toStringSlice_def
      graphProjection_def graphRespond_def GetRecordValue_string_def GetRecordValue_slice_def
      GetRecordValue_def Get_def Let_def zero_Movie_def)

end
